theory Spec2Isabelle
  imports Complex_Main "HOL-Library.Sublist"
begin

section \<open>Data model of the task store (the store whose projects hold \<open>tasks\<close>)\<close>

text \<open>
  The TypeScript interfaces \<open>User\<close>, \<open>Task\<close>, \<open>Project\<close> and \<open>PathItem\<close>.
  A field declared with \<open>?\<close> is an \<open>option\<close> (\<open>None\<close> is JavaScript's
  \<open>undefined\<close>); a field declared without \<open>?\<close> always holds a value of its type.
  The \<open>deadline\<close> of a task is read as \<open>string | undefined\<close> and written by
  \<open>cleanTasks\<close> as \<open>string | null\<close>, so it has the three values of \<open>jsopt\<close>.
  A JavaScript number (\<open>hours\<close>, \<open>costPerHour\<close>) is a \<open>number\<close>: a finite
  value other than negative zero is \<open>Num\<close> of the rational it denotes, and
  \<open>-0\<close>, \<open>NaN\<close> and the two infinities are values of their own. The only
  operation of the source on a number is \<open>x || 0\<close>, whose falsy numbers are
  \<open>0\<close>, \<open>-0\<close> and \<open>NaN\<close>.
  The source guards reads of the declared fields \<open>name\<close>, \<open>description\<close> and
  \<open>children\<close> with \<open>|| ''\<close> and \<open>|| []\<close>; on a value of the declared type
  such a guard returns the value, an array being truthy and the empty string being its
  own default.
\<close>

record user =
  u_id :: string
  u_fullName :: string
  u_email :: string

datatype 'a jsopt = Undefined | Null | Val 'a

datatype number = Num rat | NegZero | NaN | PosInfinity | NegInfinity

record task_fields =
  t_id :: string
  t_name :: string
  t_description :: string
  t_hours :: "number option"
  t_costPerHour :: "number option"
  t_assignedTo :: "user list option"
  t_deadline :: "string jsopt"
  t_completed :: bool
  t_projectId :: "string option"

text \<open>
  A task is its scalar fields and its \<open>children\<close> array. The spread
  \<open>{...task, children: cs}\<close> of the source is \<open>Task (attrs task) cs\<close>.
\<close>

datatype task = Task (attrs: task_fields) (children: "task list")

text \<open>\<open>PathItem\<close> is \<open>{ id: string }\<close>: a path is the list of its ids.\<close>

type_synonym path = "string list"

abbreviation task_id :: "task \<Rightarrow> string" where
  "task_id t \<equiv> t_id (attrs t)"

section \<open>Path resolution: \<open>getTaskByPath\<close>\<close>

text \<open>
  The loop of \<open>getTaskByPath\<close> over the path, with its two variables
  \<open>current\<close> and \<open>items\<close>. \<open>items.find(...)\<close> is \<open>find\<close>; a miss
  (\<open>!found\<close>) returns \<open>null\<close>, which is \<open>None\<close>. \<open>found.children || []\<close>
  is \<open>children found\<close>, an array being truthy.
\<close>

fun getTaskByPath_loop :: "task option \<Rightarrow> task list \<Rightarrow> path \<Rightarrow> task option" where
  "getTaskByPath_loop current items [] = current"
| "getTaskByPath_loop current items (pathItem # rest) =
     (case find (\<lambda>item. task_id item = pathItem) items of
        None \<Rightarrow> None
      | Some found \<Rightarrow> getTaskByPath_loop (Some found) (children found) rest)"

definition getTaskByPath_tasks :: "task list \<Rightarrow> path \<Rightarrow> task option" where
  "getTaskByPath_tasks tasks p = getTaskByPath_loop None tasks p"

text \<open>
  The resolver as section 4.1 of the specification words it: for each segment find the
  node of the current candidate list whose id matches and descend into its children;
  not found as soon as a segment has no match; the empty path names no node.
\<close>

fun resolve :: "task list \<Rightarrow> path \<Rightarrow> task option" where
  "resolve candidates [] = None"
| "resolve candidates [i] = find (\<lambda>t. task_id t = i) candidates"
| "resolve candidates (i # j # p) =
     (case find (\<lambda>t. task_id t = i) candidates of
        None \<Rightarrow> None
      | Some t \<Rightarrow> resolve (children t) (j # p))"

section \<open>Tree mutation: the transformers of \<open>addTask\<close>, \<open>updateTask\<close>, \<open>deleteTask\<close>\<close>

text \<open>JavaScript's \<open>a || b\<close> on strings: the empty string is the falsy one.\<close>

definition str_or :: "string \<Rightarrow> string \<Rightarrow> string" where
  "str_or a b = (if a = [] then b else a)"

text \<open>
  The argument of \<open>addTask\<close>: \<open>Omit<Task, 'id' | 'children' | 'completed'>\<close>.
\<close>

record task_data =
  td_name :: string
  td_description :: string
  td_hours :: "number option"
  td_costPerHour :: "number option"
  td_assignedTo :: "user list option"
  td_deadline :: "string jsopt"
  td_projectId :: "string option"

text \<open>
  \<open>newTask\<close> of \<open>addTask\<close>. The result of \<open>crypto.randomUUID()\<close> is the
  parameter \<open>uuid\<close>.
\<close>

definition newTask :: "task_data \<Rightarrow> string \<Rightarrow> task" where
  "newTask taskData uuid =
     Task \<lparr> t_id = uuid,
            t_name = str_or (td_name taskData) [],
            t_description = str_or (td_description taskData) [],
            t_hours = td_hours taskData,
            t_costPerHour = td_costPerHour taskData,
            t_assignedTo = td_assignedTo taskData,
            t_deadline = td_deadline taskData,
            t_completed = False,
            t_projectId = td_projectId taskData \<rparr> []"

fun updateNestedTasks :: "task \<Rightarrow> task list \<Rightarrow> path \<Rightarrow> task list" where
  "updateNestedTasks new tasks [] = tasks @ [new]"
| "updateNestedTasks new tasks (p # currentPath) =
     map (\<lambda>task.
            if task_id task = p
            then Task (attrs task) (updateNestedTasks new (children task) currentPath)
            else task) tasks"

text \<open>\<open>updatedTasks\<close> of \<open>addTask\<close>.\<close>

definition addTask_tasks :: "task \<Rightarrow> task list \<Rightarrow> path \<Rightarrow> task list" where
  "addTask_tasks new tasks p =
     (if length p = 0 then tasks @ [new] else updateNestedTasks new tasks p)"

text \<open>
  The argument \<open>data: Partial<Task>\<close> of \<open>updateTask\<close>: every key may be absent
  (\<open>None\<close>); a key that is present carries a value of the field's type.
\<close>

record task_patch =
  d_id :: "string option"
  d_name :: "string option"
  d_description :: "string option"
  d_hours :: "number option option"
  d_costPerHour :: "number option option"
  d_assignedTo :: "user list option option"
  d_deadline :: "string jsopt option"
  d_completed :: "bool option"
  d_children :: "task list option"
  d_projectId :: "string option option"

text \<open>The patch \<open>{ completed: c }\<close>, the one \<open>toggleTaskCompletion\<close> sends.\<close>

definition only_completed :: "bool \<Rightarrow> task_patch" where
  "only_completed c =
     \<lparr> d_id = None, d_name = None, d_description = None, d_hours = None,
       d_costPerHour = None, d_assignedTo = None, d_deadline = None,
       d_completed = Some c, d_children = None, d_projectId = None \<rparr>"

text \<open>One key of the spread \<open>{...task, ...data}\<close>.\<close>

definition spread :: "'a \<Rightarrow> 'a option \<Rightarrow> 'a" where
  "spread old given = (case given of None \<Rightarrow> old | Some v \<Rightarrow> v)"

text \<open>\<open>data.name || task.name\<close>: an absent and an empty name are both falsy.\<close>

definition patch_or :: "string option \<Rightarrow> string \<Rightarrow> string" where
  "patch_or given old = (case given of None \<Rightarrow> old | Some v \<Rightarrow> str_or v old)"

text \<open>
  The object built for the task whose id matches:
  \<open>{...task, ...data, name: data.name || task.name,
     description: data.description || task.description, children: task.children || []}\<close>.
\<close>

definition patchTask :: "task_patch \<Rightarrow> task \<Rightarrow> task" where
  "patchTask data task =
     Task \<lparr> t_id = spread (t_id (attrs task)) (d_id data),
            t_name = patch_or (d_name data) (t_name (attrs task)),
            t_description = patch_or (d_description data) (t_description (attrs task)),
            t_hours = spread (t_hours (attrs task)) (d_hours data),
            t_costPerHour = spread (t_costPerHour (attrs task)) (d_costPerHour data),
            t_assignedTo = spread (t_assignedTo (attrs task)) (d_assignedTo data),
            t_deadline = spread (t_deadline (attrs task)) (d_deadline data),
            t_completed = spread (t_completed (attrs task)) (d_completed data),
            t_projectId = spread (t_projectId (attrs task)) (d_projectId data) \<rparr>
          (children task)"

function updateNestedTask :: "string \<Rightarrow> task_patch \<Rightarrow> task list \<Rightarrow> task list" where
  "updateNestedTask taskId data tasks =
     map (\<lambda>task.
            if task_id task = taskId then patchTask data task
            else if length (children task) > 0
            then Task (attrs task) (updateNestedTask taskId data (children task))
            else task) tasks"
  by pat_completeness auto
termination
proof (relation "measure (\<lambda>(taskId, data, tasks). size_list size tasks)", goal_cases)
  case 1
  show ?case by simp
next
  case (2 taskId data tasks x)
  have "size_list size (children x) < size x"
    by (cases x) simp
  with 2(1) have "size_list size (children x) < size_list size tasks"
    by (rule size_list_estimation)
  then show ?case by simp
qed

declare updateNestedTask.simps [simp del]

text \<open>
  \<open>deleteNestedTask\<close> is a \<open>filter\<close> whose callback, for a task it keeps and that
  has children, assigns \<open>task.children = deleteNestedTask(task.children)\<close>. The value
  it returns is the kept tasks, each with the new children.
\<close>

function deleteNestedTask :: "string \<Rightarrow> task list \<Rightarrow> task list" where
  "deleteNestedTask taskId [] = []"
| "deleteNestedTask taskId (task # tasks) =
     (if task_id task = taskId then deleteNestedTask taskId tasks
      else (if length (children task) > 0
            then Task (attrs task) (deleteNestedTask taskId (children task))
            else task) # deleteNestedTask taskId tasks)"
  by pat_completeness auto
termination
proof (relation "measure (\<lambda>(taskId, tasks). size_list size tasks)", goal_cases)
  case (3 taskId task tasks)
  have "size_list size (children task) < size task"
    by (cases task) simp
  then show ?case by simp
qed simp_all

text \<open>
  The assignment is made on the objects of the argument, so after the call the array
  passed in holds its old elements with, for each one kept, the new children: the state
  of the argument after the call.
\<close>

definition deleteNestedTask_argument_after :: "string \<Rightarrow> task list \<Rightarrow> task list" where
  "deleteNestedTask_argument_after taskId tasks =
     map (\<lambda>task.
            if task_id task = taskId then task
            else if length (children task) > 0
            then Task (attrs task) (deleteNestedTask taskId (children task))
            else task) tasks"

section \<open>Normalisation before a write: \<open>cleanTasks\<close>, \<open>cleanProjectData\<close>\<close>

text \<open>
  \<open>task.hours || 0\<close>: \<open>undefined\<close> and the numbers \<open>0\<close>, \<open>-0\<close> and
  \<open>NaN\<close> are falsy; every other number, the infinities too, is truthy.
\<close>

definition falsy_number :: "number \<Rightarrow> bool" where
  "falsy_number n = (n = Num 0 \<or> n = NegZero \<or> n = NaN)"

definition num_or :: "number option \<Rightarrow> number \<Rightarrow> number" where
  "num_or a b = (case a of None \<Rightarrow> b | Some n \<Rightarrow> if falsy_number n then b else n)"

text \<open>\<open>task.deadline || null\<close>: \<open>undefined\<close>, \<open>null\<close> and the empty string are falsy.\<close>

definition deadline_or_null :: "string jsopt \<Rightarrow> string jsopt" where
  "deadline_or_null d = (case d of Val s \<Rightarrow> if s = [] then Null else Val s | _ \<Rightarrow> Null)"

definition cleanUser :: "user \<Rightarrow> user" where
  "cleanUser u = \<lparr> u_id = u_id u, u_fullName = u_fullName u, u_email = u_email u \<rparr>"

text \<open>\<open>task.assignedTo?.map(...) || []\<close>.\<close>

definition cleanAssignedTo :: "user list option \<Rightarrow> user list" where
  "cleanAssignedTo a = (case a of None \<Rightarrow> [] | Some us \<Rightarrow> map cleanUser us)"

text \<open>
  The object literal of \<open>cleanTasks\<close> has the nine keys \<open>id\<close> to \<open>children\<close>
  and no \<open>projectId\<close>. \<open>Boolean(task.completed)\<close> of a boolean is itself.
\<close>

function cleanTasks :: "task list \<Rightarrow> task list" where
  "cleanTasks tasks =
     map (\<lambda>task.
            Task \<lparr> t_id = t_id (attrs task),
                   t_name = str_or (t_name (attrs task)) [],
                   t_description = str_or (t_description (attrs task)) [],
                   t_hours = Some (num_or (t_hours (attrs task)) (Num 0)),
                   t_costPerHour = Some (num_or (t_costPerHour (attrs task)) (Num 0)),
                   t_assignedTo = Some (cleanAssignedTo (t_assignedTo (attrs task))),
                   t_deadline = deadline_or_null (t_deadline (attrs task)),
                   t_completed = t_completed (attrs task),
                   t_projectId = None \<rparr>
                 (cleanTasks (children task))) tasks"
  by pat_completeness auto
termination
proof (relation "measure (size_list size)", goal_cases)
  case 1
  show ?case by simp
next
  case (2 tasks x)
  have "size_list size (children x) < size x"
    by (cases x) simp
  with 2 have "size_list size (children x) < size_list size tasks"
    by (rule size_list_estimation)
  then show ?case by simp
qed

declare cleanTasks.simps [simp del]

record customer =
  c_name :: string
  c_phone :: string
  c_address :: string

text \<open>
  The document that \<open>updateProject\<close> writes: \<open>cleanProjectData\<close>, whose
  \<open>type\<close> is the constant \<open>'project'\<close>.
\<close>

record project_data =
  pd_name :: string
  pd_description :: string
  pd_customer :: customer
  pd_tasks :: "task list"

definition cleanProjectData :: "project_data \<Rightarrow> project_data" where
  "cleanProjectData projectData =
     \<lparr> pd_name = str_or (pd_name projectData) [],
       pd_description = str_or (pd_description projectData) [],
       pd_customer =
         \<lparr> c_name = str_or (c_name (pd_customer projectData)) [],
           c_phone = str_or (c_phone (pd_customer projectData)) [],
           c_address = str_or (c_address (pd_customer projectData)) [] \<rparr>,
       pd_tasks = cleanTasks (pd_tasks projectData) \<rparr>"

section \<open>Aggregation of a user's tasks: \<open>findUserTasks\<close>\<close>

text \<open>\<open>task.assignedTo?.some(user => user.id === currentUser.uid)\<close>.\<close>

definition isAssigned :: "string \<Rightarrow> task \<Rightarrow> bool" where
  "isAssigned uid task =
     (case t_assignedTo (attrs task) of
        None \<Rightarrow> False
      | Some us \<Rightarrow> list_ex (\<lambda>user. u_id user = uid) us)"

text \<open>
  \<open>{ ...task, projectId }\<close>. The value is the \<open>project.id\<close> the caller
  passes, a field declared \<open>id?: string\<close>.
\<close>

definition withProjectId :: "string option \<Rightarrow> task \<Rightarrow> task" where
  "withProjectId projectId task =
     Task ((attrs task)\<lparr> t_projectId := projectId \<rparr>) (children task)"

text \<open>The \<open>reduce\<close> of \<open>findUserTasks\<close> is a left fold from the empty array.\<close>

function findUserTasks :: "string \<Rightarrow> task list \<Rightarrow> string option \<Rightarrow> task list" where
  "findUserTasks uid tasks projectId =
     foldl (\<lambda>acc task.
              (let childTasks = findUserTasks uid (children task) projectId
               in (if isAssigned uid task then acc @ [withProjectId projectId task] else acc)
                  @ childTasks)) [] tasks"
  by pat_completeness auto
termination
proof (relation "measure (\<lambda>(uid, tasks, projectId). size_list size tasks)")
  show "wf (measure (\<lambda>(uid :: string, tasks, projectId :: string option).
      size_list size tasks))"
    by simp
next
  fix uid :: string and projectId :: "string option" and tasks :: "task list" and x :: task
  assume mem: "x \<in> set tasks"
  have "size_list size (children x) < size x"
    by (cases x) simp
  with mem have "size_list size (children x) < size_list size tasks"
    by (rule size_list_estimation)
  then show "((uid, children x, projectId), (uid, tasks, projectId))
      \<in> measure (\<lambda>(uid, tasks, projectId). size_list size tasks)"
    by simp
qed

declare findUserTasks.simps [simp del]

section \<open>The store operations\<close>

text \<open>
  The state the operations act on: the fields of the zustand store, the \<open>projects\<close>
  collection of the document store (document id and data, in the order \<open>getDocs\<close>
  lists them) and the signed-in user's \<open>uid\<close> (\<open>None\<close> when
  \<open>auth.currentUser\<close> is null). A document may lack \<open>tasks\<close>. The calls to
  the document store succeed, except \<open>updateDoc\<close> on a document that does not
  exist. An exception is \<open>Inl\<close> of its message.
\<close>

record project =
  p_id :: "string option"
  p_internalId :: string
  p_name :: string
  p_description :: string
  p_customer :: customer
  p_tasks :: "task list"
  p_createdAt :: string

record firestore_doc =
  fd_internalId :: string
  fd_name :: string
  fd_description :: string
  fd_customer :: customer
  fd_tasks :: "task list option"
  fd_createdAt :: string

record store =
  projects :: "project list"
  userTasks :: "task list"
  loading :: bool
  error :: "string option"
  currentPath :: path
  docs :: "(string \<times> firestore_doc) list"
  currentUser :: "string option"

text \<open>\<open>{ ...doc.data(), id: doc.id, tasks: doc.data().tasks || [] }\<close>.\<close>

definition project_of_doc :: "string \<Rightarrow> firestore_doc \<Rightarrow> project" where
  "project_of_doc docId d =
     \<lparr> p_id = Some docId,
       p_internalId = fd_internalId d,
       p_name = fd_name d,
       p_description = fd_description d,
       p_customer = fd_customer d,
       p_tasks = (case fd_tasks d of None \<Rightarrow> [] | Some ts \<Rightarrow> ts),
       p_createdAt = fd_createdAt d \<rparr>"

definition fetchProject :: "string \<Rightarrow> store \<Rightarrow> project option \<times> store" where
  "fetchProject ident s =
     (let s1 = s\<lparr> loading := True, error := None \<rparr>
      in case map_of (docs s1) ident of
           Some d \<Rightarrow> (Some (project_of_doc ident d), s1\<lparr> loading := False \<rparr>)
         | None \<Rightarrow> (None, s1\<lparr> loading := False \<rparr>))"

text \<open>\<open>updateDoc(docRef, cleanProjectData)\<close> overwrites the fields it is given.\<close>

definition updateDoc :: "string \<Rightarrow> project_data \<Rightarrow> (string \<times> firestore_doc) list
    \<Rightarrow> (string \<times> firestore_doc) list" where
  "updateDoc ident clean ds =
     map (\<lambda>(k, d).
            if k = ident
            then (k, d\<lparr> fd_name := pd_name clean,
                        fd_description := pd_description clean,
                        fd_customer := pd_customer clean,
                        fd_tasks := Some (pd_tasks clean) \<rparr>)
            else (k, d)) ds"

definition updateProject :: "string \<Rightarrow> project_data \<Rightarrow> store \<Rightarrow> (string + unit) \<times> store" where
  "updateProject ident projectData s =
     (let s1 = s\<lparr> loading := True, error := None \<rparr>;
          clean = cleanProjectData projectData
      in case map_of (docs s1) ident of
           None \<Rightarrow>
             (Inl ''No document to update'',
              s1\<lparr> error := Some ''No document to update'', loading := False \<rparr>)
         | Some _ \<Rightarrow>
             (Inr (),
              s1\<lparr> docs := updateDoc ident clean (docs s1),
                   projects :=
                     map (\<lambda>project.
                            if p_id project = Some ident
                            then project\<lparr> p_name := pd_name clean,
                                          p_description := pd_description clean,
                                          p_customer := pd_customer clean,
                                          p_tasks := pd_tasks clean,
                                          p_id := Some ident \<rparr>
                            else project) (projects s1),
                   loading := False \<rparr>))"

text \<open>The argument \<open>{ ...project, tasks: updatedTasks }\<close> of \<open>updateProject\<close>.\<close>

definition with_tasks :: "project \<Rightarrow> task list \<Rightarrow> project_data" where
  "with_tasks project updatedTasks =
     \<lparr> pd_name = p_name project,
       pd_description = p_description project,
       pd_customer = p_customer project,
       pd_tasks = updatedTasks \<rparr>"

definition getTaskByPath :: "string \<Rightarrow> path \<Rightarrow> store \<Rightarrow> task option \<times> store" where
  "getTaskByPath projectId p s =
     (case fetchProject projectId s of
        (None, s1) \<Rightarrow> (None, s1)
      | (Some project, s1) \<Rightarrow> (getTaskByPath_tasks (p_tasks project) p, s1))"

text \<open>
  The \<open>catch\<close> of a mutating operation records the message, clears \<open>loading\<close>
  and throws again.
\<close>

definition rethrow :: "string \<Rightarrow> store \<Rightarrow> (string + unit) \<times> store" where
  "rethrow msg s = (Inl msg, s\<lparr> error := Some msg, loading := False \<rparr>)"

definition addTask :: "string \<Rightarrow> path \<Rightarrow> task_data \<Rightarrow> string \<Rightarrow> store
    \<Rightarrow> (string + unit) \<times> store" where
  "addTask projectId p taskData uuid s =
     (case fetchProject projectId (s\<lparr> loading := True, error := None \<rparr>) of
        (None, s1) \<Rightarrow> rethrow ''Project not found'' s1
      | (Some project, s1) \<Rightarrow>
          (let updatedTasks = addTask_tasks (newTask taskData uuid) (p_tasks project) p
           in case updateProject projectId (with_tasks project updatedTasks) s1 of
                (Inl msg, s2) \<Rightarrow> rethrow msg s2
              | (Inr _, s2) \<Rightarrow> (Inr (), s2\<lparr> loading := False \<rparr>)))"

text \<open>
  \<open>fetchUserTasks\<close> catches its own exception (no signed-in user) and does not
  throw it again. \<open>project.id!\<close> is \<open>project.id\<close>, the document's id.
\<close>

definition fetchUserTasks :: "store \<Rightarrow> store" where
  "fetchUserTasks s =
     (let s1 = s\<lparr> loading := True, error := None \<rparr>
      in case currentUser s1 of
           None \<Rightarrow> s1\<lparr> error := Some ''No user logged in'', loading := False \<rparr>
         | Some uid \<Rightarrow>
             (let fetched = map (\<lambda>(k, d). project_of_doc k d) (docs s1);
                  found = foldl (\<lambda>acc project.
                                   acc @ findUserTasks uid (p_tasks project) (p_id project))
                                [] fetched
              in s1\<lparr> userTasks := found, loading := False \<rparr>))"

definition updateTask :: "string \<Rightarrow> path \<Rightarrow> string \<Rightarrow> task_patch \<Rightarrow> store
    \<Rightarrow> (string + unit) \<times> store" where
  "updateTask projectId p taskId data s =
     (case fetchProject projectId (s\<lparr> loading := True, error := None \<rparr>) of
        (None, s1) \<Rightarrow> rethrow ''Project not found'' s1
      | (Some project, s1) \<Rightarrow>
          (let updatedTasks = updateNestedTask taskId data (p_tasks project)
           in case updateProject projectId (with_tasks project updatedTasks) s1 of
                (Inl msg, s2) \<Rightarrow> rethrow msg s2
              | (Inr _, s2) \<Rightarrow>
                  (let s3 = (if d_completed data \<noteq> None
                                \<or> (case d_assignedTo data of Some (Some _) \<Rightarrow> True | _ \<Rightarrow> False)
                             then fetchUserTasks s2 else s2)
                   in (Inr (), s3\<lparr> loading := False \<rparr>))))"

definition deleteTask :: "string \<Rightarrow> path \<Rightarrow> string \<Rightarrow> store \<Rightarrow> (string + unit) \<times> store" where
  "deleteTask projectId p taskId s =
     (case fetchProject projectId (s\<lparr> loading := True, error := None \<rparr>) of
        (None, s1) \<Rightarrow> rethrow ''Project not found'' s1
      | (Some project, s1) \<Rightarrow>
          (let updatedTasks = deleteNestedTask taskId (p_tasks project)
           in case updateProject projectId (with_tasks project updatedTasks) s1 of
                (Inl msg, s2) \<Rightarrow> rethrow msg s2
              | (Inr _, s2) \<Rightarrow> (Inr (), (fetchUserTasks s2)\<lparr> loading := False \<rparr>)))"

text \<open>
  \<open>toggleTaskCompletion\<close> reads the task with \<open>getTaskByPath\<close> and throws
  \<open>'Task not found'\<close> on null; its \<open>catch\<close> logs and throws again. A task was
  found only for a non-empty path, so \<open>path[path.length - 1]\<close> is \<open>last p\<close>
  and \<open>path.slice(0, -1)\<close> is \<open>butlast p\<close>.
\<close>

definition toggleTaskCompletion :: "string \<Rightarrow> path \<Rightarrow> store \<Rightarrow> (string + unit) \<times> store" where
  "toggleTaskCompletion projectId p s =
     (case getTaskByPath projectId p s of
        (None, s1) \<Rightarrow> (Inl ''Task not found'', s1)
      | (Some task, s1) \<Rightarrow>
          updateTask projectId (butlast p) (last p)
            (only_completed (\<not> t_completed (attrs task))) s1)"

section \<open>The store with deliverables (\<open>src/store/projectStore.ts\<close>)\<close>

text \<open>
  \<open>Deliverable\<close> and \<open>SubTask\<close> are one node type here: a \<open>SubTask\<close> is a
  node without \<open>hours\<close> and \<open>costPerHour\<close>, and its \<open>description\<close> is
  optional. \<open>PathItem\<close> is \<open>{ type, id }\<close>.
\<close>

record item_fields =
  i_id :: string
  i_name :: string
  i_description :: "string option"
  i_hours :: "number option"
  i_costPerHour :: "number option"
  i_assignedTo :: "user option"
  i_deadline :: "string option"
  i_completed :: bool

datatype item = Item (iattrs: item_fields) (subTasks: "item list")

abbreviation item_id :: "item \<Rightarrow> string" where
  "item_id t \<equiv> i_id (iattrs t)"

datatype item_type = deliverable | subtask

type_synonym item_path = "(item_type \<times> string) list"

text \<open>
  The loop of \<open>getItemByPath\<close>, with the index \<open>i\<close> and \<open>currentItem\<close>.
  \<open>find(...) || null\<close> is \<open>find\<close>. When neither branch of the \<open>if\<close> is
  taken \<open>currentItem\<close> keeps its value.
\<close>

fun getItemByPath_loop :: "nat \<Rightarrow> item option \<Rightarrow> item list \<Rightarrow> item_path \<Rightarrow> item option" where
  "getItemByPath_loop i currentItem deliverables [] = currentItem"
| "getItemByPath_loop i currentItem deliverables ((ty, ident) # rest) =
     (let currentItem' =
            (if i = 0 \<and> ty = deliverable
             then find (\<lambda>d. item_id d = ident) deliverables
             else (case currentItem of
                     Some c \<Rightarrow> find (\<lambda>t. item_id t = ident) (subTasks c)
                   | None \<Rightarrow> currentItem))
      in case currentItem' of
           None \<Rightarrow> None
         | Some c \<Rightarrow> getItemByPath_loop (i + 1) (Some c) deliverables rest)"

definition getItemByPath_items :: "item list \<Rightarrow> item_path \<Rightarrow> item option" where
  "getItemByPath_items deliverables p = getItemByPath_loop 0 None deliverables p"

text \<open>The resolver of section 4.1 over the nodes of this store.\<close>

fun resolve_item :: "item list \<Rightarrow> path \<Rightarrow> item option" where
  "resolve_item candidates [] = None"
| "resolve_item candidates [i] = find (\<lambda>t. item_id t = i) candidates"
| "resolve_item candidates (i # j # p) =
     (case find (\<lambda>t. item_id t = i) candidates of
        None \<Rightarrow> None
      | Some t \<Rightarrow> resolve_item (subTasks t) (j # p))"

text \<open>The argument \<open>data: Partial<SubTask>\<close> of \<open>updateSubTask\<close>.\<close>

record item_patch =
  ip_id :: "string option"
  ip_name :: "string option"
  ip_description :: "string option option"
  ip_assignedTo :: "user option option"
  ip_deadline :: "string option option"
  ip_completed :: "bool option"
  ip_subTasks :: "item list option"

text \<open>The patch \<open>{ completed: c }\<close>.\<close>

definition item_only_completed :: "bool \<Rightarrow> item_patch" where
  "item_only_completed c =
     \<lparr> ip_id = None, ip_name = None, ip_description = None, ip_assignedTo = None,
       ip_deadline = None, ip_completed = Some c, ip_subTasks = None \<rparr>"

text \<open>\<open>{ ...item, ...data }\<close>.\<close>

definition patchItem :: "item_patch \<Rightarrow> item \<Rightarrow> item" where
  "patchItem data item =
     Item \<lparr> i_id = spread (i_id (iattrs item)) (ip_id data),
            i_name = spread (i_name (iattrs item)) (ip_name data),
            i_description = spread (i_description (iattrs item)) (ip_description data),
            i_hours = i_hours (iattrs item),
            i_costPerHour = i_costPerHour (iattrs item),
            i_assignedTo = spread (i_assignedTo (iattrs item)) (ip_assignedTo data),
            i_deadline = spread (i_deadline (iattrs item)) (ip_deadline data),
            i_completed = spread (i_completed (iattrs item)) (ip_completed data) \<rparr>
          (spread (subTasks item) (ip_subTasks data))"

function updateTaskInItem :: "string \<Rightarrow> item_patch \<Rightarrow> item list \<Rightarrow> item list" where
  "updateTaskInItem taskId data items =
     map (\<lambda>item.
            if item_id item = taskId then patchItem data item
            else if length (subTasks item) > 0
            then Item (iattrs item) (updateTaskInItem taskId data (subTasks item))
            else item) items"
  by pat_completeness auto
termination
proof (relation "measure (\<lambda>(taskId, data, items). size_list size items)", goal_cases)
  case 1
  show ?case by simp
next
  case (2 taskId data items x)
  have "size_list size (subTasks x) < size x"
    by (cases x) simp
  with 2(1) have "size_list size (subTasks x) < size_list size items"
    by (rule size_list_estimation)
  then show ?case by simp
qed

declare updateTaskInItem.simps [simp del]

text \<open>
  \<open>deleteTaskFromItem\<close>: every item keeps its place; its \<open>subTasks\<close> lose the
  ones with the id, and the call recurses into the \<open>subTasks\<close> of each one kept.
\<close>

function deleteTaskFromItem :: "string \<Rightarrow> item list \<Rightarrow> item list" where
  "deleteTaskFromItem taskId items =
     map (\<lambda>item.
            Item (iattrs item)
              (map (\<lambda>t. Item (iattrs t) (deleteTaskFromItem taskId (subTasks t)))
                 (filter (\<lambda>t. item_id t \<noteq> taskId) (subTasks item)))) items"
  by pat_completeness auto
termination
proof (relation "measure (\<lambda>(taskId, items). size_list size items)", goal_cases)
  case 1
  show ?case by simp
next
  case (2 taskId items x xa)
  have "size_list size (subTasks xa) < size xa"
    by (cases xa) simp
  moreover from 2(2) have "xa \<in> set (subTasks x)"
    by simp
  ultimately have "size_list size (subTasks xa) < size_list size (subTasks x)"
    by (rule_tac size_list_estimation)
  moreover have "size_list size (subTasks x) < size x"
    by (cases x) simp
  moreover from 2(1) have "size x \<le> size_list size items"
    by (rule size_list_estimation') simp
  ultimately show ?case by simp
qed

declare deleteTaskFromItem.simps [simp del]

text \<open>
  The operations of this store: the project document holds the \<open>deliverables\<close>.
  \<open>updateProject\<close> writes the document it is given without cleaning it; every
  operation catches its exceptions and records the message, none throws.
  \<open>fetchProject\<close> and \<open>updateProject\<close> of this store are
  \<open>fetchProject_d\<close> and \<open>updateProject_d\<close>.
\<close>

record dproject =
  q_id :: "string option"
  q_internalId :: string
  q_name :: string
  q_description :: string
  q_customer :: customer
  q_deliverables :: "item list"
  q_createdAt :: string

record dstore =
  ds_projects :: "dproject list"
  ds_loading :: bool
  ds_error :: "string option"
  ds_currentPath :: item_path
  ds_docs :: "(string \<times> dproject) list"

text \<open>\<open>{ ...docSnap.data(), id: docSnap.id }\<close>.\<close>

definition fetchProject_d :: "string \<Rightarrow> dstore \<Rightarrow> dproject option \<times> dstore" where
  "fetchProject_d ident s =
     (let s1 = s\<lparr> ds_loading := True, ds_error := None \<rparr>
      in case map_of (ds_docs s1) ident of
           Some d \<Rightarrow> (Some (d\<lparr> q_id := Some ident \<rparr>), s1\<lparr> ds_loading := False \<rparr>)
         | None \<Rightarrow> (None, s1\<lparr> ds_loading := False \<rparr>))"

definition updateProject_d :: "string \<Rightarrow> dproject \<Rightarrow> dstore \<Rightarrow> dstore" where
  "updateProject_d ident projectData s =
     (let s1 = s\<lparr> ds_loading := True, ds_error := None \<rparr>
      in case map_of (ds_docs s1) ident of
           None \<Rightarrow> s1\<lparr> ds_error := Some ''No document to update'', ds_loading := False \<rparr>
         | Some _ \<Rightarrow>
             s1\<lparr> ds_docs := map (\<lambda>(k, d). if k = ident then (k, projectData) else (k, d))
                               (ds_docs s1),
                  ds_projects :=
                    map (\<lambda>project.
                           if q_id project = Some ident
                           then projectData\<lparr> q_id := Some ident,
                                              q_internalId := q_internalId project \<rparr>
                           else project) (ds_projects s1),
                  ds_loading := False \<rparr>)"

definition getItemByPath :: "string \<Rightarrow> item_path \<Rightarrow> dstore \<Rightarrow> item option \<times> dstore" where
  "getItemByPath projectId p s =
     (case fetchProject_d projectId s of
        (None, s1) \<Rightarrow> (None, s1)
      | (Some project, s1) \<Rightarrow> (getItemByPath_items (q_deliverables project) p, s1))"

text \<open>
  \<open>updateSubTask\<close> and \<open>deleteSubTask\<close> take a \<open>deliverableId\<close> that their
  bodies do not read.
\<close>

definition updateSubTask :: "string \<Rightarrow> string \<Rightarrow> string \<Rightarrow> item_patch \<Rightarrow> dstore \<Rightarrow> dstore" where
  "updateSubTask projectId deliverableId taskId data s =
     (case fetchProject_d projectId s of
        (None, s1) \<Rightarrow> s1\<lparr> ds_error := Some ''Project not found'' \<rparr>
      | (Some project, s1) \<Rightarrow>
          updateProject_d projectId
            (project\<lparr> q_deliverables := updateTaskInItem taskId data (q_deliverables project) \<rparr>)
            s1)"

definition deleteSubTask :: "string \<Rightarrow> string \<Rightarrow> string \<Rightarrow> dstore \<Rightarrow> dstore" where
  "deleteSubTask projectId deliverableId taskId s =
     (case fetchProject_d projectId s of
        (None, s1) \<Rightarrow> s1\<lparr> ds_error := Some ''Project not found'' \<rparr>
      | (Some project, s1) \<Rightarrow>
          updateProject_d projectId
            (project\<lparr> q_deliverables := deleteTaskFromItem taskId (q_deliverables project) \<rparr>)
            s1)"

section \<open>Notions used to state the properties\<close>

text \<open>
  The nodes of a forest depth-first, each parent before its children, and their ids.
\<close>

fun preorder :: "task list \<Rightarrow> task list" where
  "preorder [] = []"
| "preorder (Task a cs # ts) = Task a cs # preorder cs @ preorder ts"

definition ids :: "task list \<Rightarrow> string list" where
  "ids ts = map task_id (preorder ts)"

fun preorder_items :: "item list \<Rightarrow> item list" where
  "preorder_items [] = []"
| "preorder_items (Item a cs # ts) = Item a cs # preorder_items cs @ preorder_items ts"

definition item_ids :: "item list \<Rightarrow> string list" where
  "item_ids ts = map item_id (preorder_items ts)"

text \<open>
  The edit of section 4.2 that walks a path: \<open>along p f ts\<close> rebuilds the nodes met
  while matching the ids of \<open>p\<close>, applies \<open>f\<close> to the list of nodes the path
  leads to, and returns every other node as it is.
\<close>

fun along :: "path \<Rightarrow> (task list \<Rightarrow> task list) \<Rightarrow> task list \<Rightarrow> task list" where
  "along [] f ts = f ts"
| "along (i # p) f ts =
     map (\<lambda>t. if task_id t = i then Task (attrs t) (along p f (children t)) else t) ts"

text \<open>
  A node named by its position: \<open>node_at ts [k, l]\<close> is child \<open>l\<close> of the top-level
  node \<open>k\<close>. \<open>ancestor_ids\<close> lists the ids of the nodes above that position.
\<close>

fun node_at :: "task list \<Rightarrow> nat list \<Rightarrow> task option" where
  "node_at ts [] = None"
| "node_at ts [k] = (if k < length ts then Some (ts ! k) else None)"
| "node_at ts (k # l # ix) =
     (if k < length ts then node_at (children (ts ! k)) (l # ix) else None)"

fun ancestor_ids :: "task list \<Rightarrow> nat list \<Rightarrow> string list" where
  "ancestor_ids ts [] = []"
| "ancestor_ids ts [k] = []"
| "ancestor_ids ts (k # l # ix) =
     (if k < length ts
      then task_id (ts ! k) # ancestor_ids (children (ts ! k)) (l # ix) else [])"

fun item_at :: "item list \<Rightarrow> nat list \<Rightarrow> item option" where
  "item_at ts [] = None"
| "item_at ts [k] = (if k < length ts then Some (ts ! k) else None)"
| "item_at ts (k # l # ix) =
     (if k < length ts then item_at (subTasks (ts ! k)) (l # ix) else None)"

fun item_ancestor_ids :: "item list \<Rightarrow> nat list \<Rightarrow> string list" where
  "item_ancestor_ids ts [] = []"
| "item_ancestor_ids ts [k] = []"
| "item_ancestor_ids ts (k # l # ix) =
     (if k < length ts
      then item_id (ts ! k) # item_ancestor_ids (subTasks (ts ! k)) (l # ix) else [])"

text \<open>
  A task with no undefined field, at any depth: the optional fields of the interface
  hold a value.
\<close>

fun all_defined :: "task \<Rightarrow> bool" where
  "all_defined (Task a cs) =
     (t_hours a \<noteq> None \<and> t_costPerHour a \<noteq> None \<and> t_assignedTo a \<noteq> None
      \<and> t_deadline a \<noteq> Undefined \<and> list_all all_defined cs)"

text \<open>
  The default substitutions as section 8 of the specification words them: undefined
  hours and cost become 0, an undefined assignment list the empty list, an undefined
  deadline null; nothing else changes.
\<close>

fun substDefaults :: "task \<Rightarrow> task" where
  "substDefaults (Task a cs) =
     Task (a\<lparr> t_hours := Some (case t_hours a of None \<Rightarrow> Num 0 | Some h \<Rightarrow> h),
              t_costPerHour := Some (case t_costPerHour a of None \<Rightarrow> Num 0 | Some c \<Rightarrow> c),
              t_assignedTo := Some (case t_assignedTo a of None \<Rightarrow> [] | Some us \<Rightarrow> us),
              t_deadline := (case t_deadline a of Undefined \<Rightarrow> Null | d \<Rightarrow> d) \<rparr>)
          (map substDefaults cs)"

text \<open>
  What \<open>cleanTasks\<close> does beyond them: it leaves \<open>projectId\<close> out, turns an
  empty-string deadline into null, and turns hours and a cost that are \<open>-0\<close> or
  \<open>NaN\<close> into 0.
\<close>

definition zeroed :: "number \<Rightarrow> number" where
  "zeroed n = (if n = NegZero \<or> n = NaN then Num 0 else n)"

fun otherChanges :: "task \<Rightarrow> task" where
  "otherChanges (Task a cs) =
     Task (a\<lparr> t_projectId := None,
              t_deadline := (if t_deadline a = Val [] then Null else t_deadline a),
              t_hours := map_option zeroed (t_hours a),
              t_costPerHour := map_option zeroed (t_costPerHour a) \<rparr>)
          (map otherChanges cs)"

text \<open>The shape of a task that \<open>cleanTasks\<close> has written.\<close>

fun persisted :: "task \<Rightarrow> bool" where
  "persisted (Task a cs) =
     (t_hours a \<noteq> None \<and> t_hours a \<noteq> Some NegZero \<and> t_hours a \<noteq> Some NaN
      \<and> t_costPerHour a \<noteq> None \<and> t_costPerHour a \<noteq> Some NegZero
      \<and> t_costPerHour a \<noteq> Some NaN \<and> t_assignedTo a \<noteq> None
      \<and> t_deadline a \<noteq> Undefined \<and> t_deadline a \<noteq> Val [] \<and> t_projectId a = None
      \<and> list_all persisted cs)"

text \<open>The tasks of a stored project, as \<open>fetchProject\<close> returns them.\<close>

definition stored_tasks :: "store \<Rightarrow> string \<Rightarrow> task list option" where
  "stored_tasks s projectId = map_option p_tasks (fst (fetchProject projectId s))"

text \<open>The deliverables of a stored project, as \<open>fetchProject\<close> returns them.\<close>

definition stored_deliverables :: "dstore \<Rightarrow> string \<Rightarrow> item list option" where
  "stored_deliverables s projectId =
     map_option q_deliverables (fst (fetchProject_d projectId s))"

section \<open>Examples\<close>


text \<open>
  The tree of the scenarios of section 8, \<open>[{id: "a", children: [{id: "b"}]}]\<close>,
  a tree with the id \<open>dup\<close> in two branches, a tree whose node and its child
  share an id, a store holding one project, tasks that differ in \<open>projectId\<close>,
  \<open>deadline\<close> or \<open>hours\<close> only, and two projects with assigned tasks.
\<close>

definition mk_task :: "string \<Rightarrow> task list \<Rightarrow> task" where
  "mk_task ident cs =
     Task \<lparr> t_id = ident, t_name = ident, t_description = [],
            t_hours = None, t_costPerHour = None, t_assignedTo = None,
            t_deadline = Undefined, t_completed = False, t_projectId = None \<rparr> cs"

definition tree_ab :: "task list" where
  "tree_ab = [mk_task ''a'' [mk_task ''b'' []]]"

definition tree_dup :: "task list" where
  "tree_dup = [mk_task ''a'' [mk_task ''dup'' []], mk_task ''c'' [mk_task ''dup'' []]]"

definition mk_item :: "string \<Rightarrow> item list \<Rightarrow> item" where
  "mk_item ident cs =
     Item \<lparr> i_id = ident, i_name = ident, i_description = None,
            i_hours = None, i_costPerHour = None, i_assignedTo = None,
            i_deadline = None, i_completed = False \<rparr> cs"

definition items_ab :: "item list" where
  "items_ab = [mk_item ''a'' [mk_item ''b'' []]]"

definition mk_doc :: "task list option \<Rightarrow> firestore_doc" where
  "mk_doc ts =
     \<lparr> fd_internalId = ''p-123456'', fd_name = ''Hull'', fd_description = [],
       fd_customer = \<lparr> c_name = [], c_phone = [], c_address = [] \<rparr>,
       fd_tasks = ts, fd_createdAt = [] \<rparr>"

definition mk_store :: "(string \<times> firestore_doc) list \<Rightarrow> string option \<Rightarrow> store" where
  "mk_store ds u =
     \<lparr> projects = [], userTasks = [], loading = False, error = None, currentPath = [],
       docs = ds, currentUser = u \<rparr>"

definition tree_abc :: "task list" where
  "tree_abc = [mk_task ''a'' [mk_task ''b'' []], mk_task ''c'' [mk_task ''e'' []]]"

definition tree_xx :: "task list" where
  "tree_xx = [mk_task ''x'' [mk_task ''x'' []]]"

definition items_dup :: "item list" where
  "items_dup = [mk_item ''d1'' [mk_item ''dup'' []], mk_item ''d2'' [mk_item ''dup'' []]]"

definition store_of :: "task list \<Rightarrow> store" where
  "store_of ts = mk_store [(''p1'', mk_doc (Some ts))] (Some ''u1'')"

definition td_X :: task_data where
  "td_X = \<lparr> td_name = ''X'', td_description = [], td_hours = None, td_costPerHour = None,
            td_assignedTo = None, td_deadline = Undefined, td_projectId = None \<rparr>"

definition td_P :: task_data where
  "td_P = \<lparr> td_name = ''X'', td_description = [], td_hours = None, td_costPerHour = None,
            td_assignedTo = None, td_deadline = Val [], td_projectId = Some ''p9'' \<rparr>"

definition task_clean :: task where
  "task_clean =
     Task \<lparr> t_id = ''t'', t_name = ''T'', t_description = [], t_hours = Some (Num 1),
            t_costPerHour = Some (Num 2), t_assignedTo = Some [], t_deadline = Null,
            t_completed = False, t_projectId = None \<rparr> []"

definition task_with_project :: task where
  "task_with_project =
     Task \<lparr> t_id = ''t'', t_name = ''T'', t_description = [], t_hours = Some (Num 1),
            t_costPerHour = Some (Num 2), t_assignedTo = Some [], t_deadline = Null,
            t_completed = False, t_projectId = Some ''p1'' \<rparr> []"

definition task_empty_deadline :: task where
  "task_empty_deadline =
     Task \<lparr> t_id = ''t'', t_name = ''T'', t_description = [], t_hours = Some (Num 1),
            t_costPerHour = Some (Num 2), t_assignedTo = Some [], t_deadline = Val [],
            t_completed = False, t_projectId = None \<rparr> []"

definition task_nan_hours :: task where
  "task_nan_hours =
     Task \<lparr> t_id = ''t'', t_name = ''T'', t_description = [], t_hours = Some NaN,
            t_costPerHour = Some (Num 2), t_assignedTo = Some [], t_deadline = Null,
            t_completed = False, t_projectId = None \<rparr> []"

definition task_zero_hours :: task where
  "task_zero_hours =
     Task \<lparr> t_id = ''t'', t_name = ''T'', t_description = [], t_hours = Some (Num 0),
            t_costPerHour = Some (Num 2), t_assignedTo = Some [], t_deadline = Null,
            t_completed = False, t_projectId = None \<rparr> []"

definition mk_assigned :: "string \<Rightarrow> string list \<Rightarrow> task list \<Rightarrow> task" where
  "mk_assigned ident uids cs =
     Task \<lparr> t_id = ident, t_name = ident, t_description = [],
            t_hours = None, t_costPerHour = None,
            t_assignedTo = Some (map (\<lambda>u. \<lparr> u_id = u, u_fullName = u, u_email = [] \<rparr>) uids),
            t_deadline = Undefined, t_completed = False, t_projectId = None \<rparr> cs"

definition store_two :: store where
  "store_two =
     mk_store
       [(''p1'', mk_doc (Some [mk_assigned ''A'' [''u1'']
                                 [mk_task ''B'' [mk_assigned ''C'' [''u2'', ''u1''] []]],
                               mk_assigned ''D'' [''u2''] []])),
        (''p2'', mk_doc (Some [mk_assigned ''E'' [''u1''] []]))]
       (Some ''u1'')"

definition patch_blank :: task_patch where
  "patch_blank =
     \<lparr> d_id = None, d_name = Some [], d_description = Some [], d_hours = None,
       d_costPerHour = None, d_assignedTo = None, d_deadline = None,
       d_completed = Some True, d_children = Some [mk_task ''q'' []], d_projectId = None \<rparr>"

definition dstore_of :: "item list \<Rightarrow> dstore" where
  "dstore_of ds =
     \<lparr> ds_projects = [], ds_loading = False, ds_error = None, ds_currentPath = [],
       ds_docs = [(''p1'', \<lparr> q_id = None, q_internalId = ''p-123456'', q_name = ''Hull'',
                             q_description = [],
                             q_customer = \<lparr> c_name = [], c_phone = [], c_address = [] \<rparr>,
                             q_deliverables = ds, q_createdAt = [] \<rparr>)] \<rparr>"

section \<open>Path resolution is the resolver of section 4.1\<close>

lemma getTaskByPath_loop_resolve:
  "getTaskByPath_loop current items (i # p) = resolve items (i # p)"
proof (induction p arbitrary: current items i)
  case Nil
  show ?case by (simp split: option.splits)
next
  case (Cons j p)
  have "getTaskByPath_loop current items (i # j # p) =
      (case find (\<lambda>t. task_id t = i) items of
         None \<Rightarrow> None
       | Some found \<Rightarrow> getTaskByPath_loop (Some found) (children found) (j # p))"
    by (simp only: getTaskByPath_loop.simps)
  also have "\<dots> =
      (case find (\<lambda>t. task_id t = i) items of
         None \<Rightarrow> None
       | Some found \<Rightarrow> resolve (children found) (j # p))"
    by (simp only: Cons.IH)
  also have "\<dots> = resolve items (i # j # p)"
    by (simp only: resolve.simps)
  finally show ?case .
qed

lemma getTaskByPath_tasks_resolve:
  "getTaskByPath_tasks tasks p = resolve tasks p"
  by (cases p)
    (simp_all add: getTaskByPath_tasks_def getTaskByPath_loop_resolve
       del: getTaskByPath_loop.simps(2))

lemma getItemByPath_loop_resolve:
  "getItemByPath_loop (Suc k) (Some c) ds ((ty, i) # rest) =
     resolve_item (subTasks c) (i # map snd rest)"
proof (induction rest arbitrary: k c ty i)
  case Nil
  show ?case by (simp split: option.splits)
next
  case (Cons a rest)
  obtain ty' j where a: "a = (ty', j)" by (cases a)
  have "getItemByPath_loop (Suc k) (Some c) ds ((ty, i) # a # rest) =
      (case find (\<lambda>t. item_id t = i) (subTasks c) of
         None \<Rightarrow> None
       | Some c' \<Rightarrow> getItemByPath_loop (Suc (Suc k)) (Some c') ds ((ty', j) # rest))"
    by (simp add: a split: option.splits)
  also have "\<dots> =
      (case find (\<lambda>t. item_id t = i) (subTasks c) of
         None \<Rightarrow> None
       | Some c' \<Rightarrow> resolve_item (subTasks c') (j # map snd rest))"
    by (simp only: Cons.IH)
  also have "\<dots> = resolve_item (subTasks c) (i # map snd (a # rest))"
    by (simp add: a)
  finally show ?case .
qed

lemma getItemByPath_first:
  "getItemByPath_items ds ((deliverable, i) # rest) = resolve_item ds (i # map snd rest)"
proof (cases rest)
  case Nil
  then show ?thesis
    by (simp add: getItemByPath_items_def split: option.splits)
next
  case (Cons a rest')
  obtain ty j where a: "a = (ty, j)" by (cases a)
  have "getItemByPath_items ds ((deliverable, i) # a # rest') =
      (case find (\<lambda>t. item_id t = i) ds of
         None \<Rightarrow> None
       | Some c \<Rightarrow> getItemByPath_loop (Suc 0) (Some c) ds ((ty, j) # rest'))"
    by (simp add: getItemByPath_items_def a split: option.splits)
  also have "\<dots> = resolve_item ds (i # map snd (a # rest'))"
    by (simp add: getItemByPath_loop_resolve a del: getItemByPath_loop.simps
          split: option.splits)
  finally show ?thesis by (simp add: Cons)
qed

text \<open>
  The guard of \<open>getItemByPath\<close> on the first segment's \<open>type\<close>: a path that
  starts with a \<open>subtask\<close> segment resolves to null whatever its ids.
\<close>

lemma getItemByPath_subtask_first:
  "getItemByPath_items ds ((subtask, i) # rest) = None"
  by (simp add: getItemByPath_items_def)

lemma stored_tasks_docs:
  "stored_tasks s k =
     map_option (\<lambda>d. case fd_tasks d of None \<Rightarrow> [] | Some ts \<Rightarrow> ts) (map_of (docs s) k)"
  by (cases "map_of (docs s) k")
     (simp_all add: stored_tasks_def fetchProject_def project_of_doc_def Let_def)

lemma stored_tasks_store_of [simp]: "stored_tasks (store_of ts) ''p1'' = Some ts"
  by (simp add: stored_tasks_docs store_of_def mk_store_def mk_doc_def)

lemma getTaskByPath_stored:
  "fst (getTaskByPath k p s) =
     (case stored_tasks s k of None \<Rightarrow> None | Some ts \<Rightarrow> getTaskByPath_tasks ts p)"
  by (cases "map_of (docs s) k")
     (simp_all add: getTaskByPath_def stored_tasks_def fetchProject_def Let_def)

lemma stored_deliverables_docs:
  "stored_deliverables s k = map_option q_deliverables (map_of (ds_docs s) k)"
  by (cases "map_of (ds_docs s) k")
     (simp_all add: stored_deliverables_def fetchProject_d_def Let_def)

lemma stored_deliverables_dstore_of [simp]:
  "stored_deliverables (dstore_of ds) ''p1'' = Some ds"
  by (simp add: stored_deliverables_docs dstore_of_def)

lemma getItemByPath_stored:
  "fst (getItemByPath k p s) =
     (case stored_deliverables s k of None \<Rightarrow> None | Some ds \<Rightarrow> getItemByPath_items ds p)"
  by (cases "map_of (ds_docs s) k")
     (simp_all add: getItemByPath_def stored_deliverables_def fetchProject_d_def Let_def)

lemma getItemByPath_items_path:
  "getItemByPath_items ds ip =
     (case ip of
        [] \<Rightarrow> None
      | (ty, i) # rest \<Rightarrow>
          if ty = deliverable then resolve_item ds (i # map snd rest) else None)"
proof (cases ip)
  case Nil
  then show ?thesis by (simp add: getItemByPath_items_def)
next
  case (Cons a rest)
  obtain ty i where a: "a = (ty, i)" by (cases a)
  show ?thesis
    by (cases ty) (simp_all only: Cons a getItemByPath_first getItemByPath_subtask_first
        list.case prod.case item_type.distinct if_True if_False refl)
qed

text \<open>
  C1 (as amended). Path resolution is total and never throws. \<open>getTaskByPath\<close>
  returns, for every tree and every path, what the resolver of section 4.1 returns: the
  node reached by matching each segment's id in the current candidate list and
  descending into its children, and null as soon as a segment has no match.
  \<open>getItemByPath\<close> returns that node for the ids of a path whose first segment has
  the type \<open>deliverable\<close>, whatever the types of the later segments, and null for
  every path whose first segment has the type \<open>subtask\<close>, whatever its ids. Both
  return null for the empty path, and the store operations return null for a project
  that does not exist. Null is the value \<open>None\<close>: no exception is part of the
  result.
\<close>

theorem C1_path_resolution:
  "getTaskByPath_tasks tasks p = resolve tasks p
   \<and> getTaskByPath_tasks tasks [] = None
   \<and> fst (getTaskByPath projectId p s) =
       (case stored_tasks s projectId of None \<Rightarrow> None | Some ts \<Rightarrow> resolve ts p)
   \<and> getItemByPath_items ds ((deliverable, i) # rest) = resolve_item ds (i # map snd rest)
   \<and> getItemByPath_items ds ((subtask, i) # rest) = None
   \<and> getItemByPath_items ds [] = None
   \<and> fst (getItemByPath projectId ip s') =
       (case stored_deliverables s' projectId of
          None \<Rightarrow> None
        | Some ds' \<Rightarrow>
            (case ip of
               [] \<Rightarrow> None
             | (ty, j) # r \<Rightarrow>
                 if ty = deliverable then resolve_item ds' (j # map snd r) else None))"
proof -
  have "getTaskByPath_tasks tasks [] = None"
    by (simp add: getTaskByPath_tasks_def)
  moreover have "getItemByPath_items ds [] = None"
    by (simp add: getItemByPath_items_def)
  moreover have "fst (getItemByPath projectId ip s') =
       (case stored_deliverables s' projectId of
          None \<Rightarrow> None
        | Some ds' \<Rightarrow>
            (case ip of
               [] \<Rightarrow> None
             | (ty, j) # r \<Rightarrow>
                 if ty = deliverable then resolve_item ds' (j # map snd r) else None))"
    by (simp only: getItemByPath_stored getItemByPath_items_path)
  ultimately show ?thesis
    by (simp only: getTaskByPath_tasks_resolve getItemByPath_first getTaskByPath_stored
          getItemByPath_subtask_first simp_thms)
qed

theorem C1_path_resolution_witness:
  "getTaskByPath_tasks tree_ab [''a'', ''b''] = Some (mk_task ''b'' [])
   \<and> getTaskByPath_tasks tree_ab [''a'', ''z''] = None
   \<and> fst (getTaskByPath ''p1'' [''a'', ''b''] (store_of tree_ab)) = Some (mk_task ''b'' [])
   \<and> fst (getTaskByPath ''p2'' [''a'', ''b''] (store_of tree_ab)) = None
   \<and> getItemByPath_items items_ab [(deliverable, ''a''), (subtask, ''b'')]
       = Some (mk_item ''b'' [])
   \<and> getItemByPath_items items_ab [(deliverable, ''a''), (subtask, ''z'')] = None
   \<and> getItemByPath_items items_ab [(subtask, ''a''), (subtask, ''b'')] = None
   \<and> fst (getItemByPath ''p1'' [(deliverable, ''a''), (deliverable, ''b'')]
        (dstore_of items_ab)) = Some (mk_item ''b'' [])
   \<and> fst (getItemByPath ''p1'' [(subtask, ''a'')] (dstore_of items_ab)) = None"
proof -
  have r: "resolve tree_ab [''a'', ''b''] = Some (mk_task ''b'' [])"
    "resolve tree_ab [''a'', ''z''] = None"
    "resolve_item items_ab (''a'' # map snd [(subtask, ''b'')]) = Some (mk_item ''b'' [])"
    "resolve_item items_ab (''a'' # map snd [(subtask, ''z'')]) = None"
    "resolve_item items_ab (''a'' # map snd [(deliverable, ''b'')]) = Some (mk_item ''b'' [])"
    by (simp_all add: tree_ab_def items_ab_def mk_task_def mk_item_def)
  have n: "stored_tasks (store_of tree_ab) ''p2'' = None"
    by (simp add: stored_tasks_docs store_of_def mk_store_def)
  note i1 = C1_path_resolution [of tree_ab "[''a'', ''b'']" "''p1''" "store_of tree_ab"
      items_ab "''a''" "[(subtask, ''b'')]" "[(deliverable, ''a''), (deliverable, ''b'')]"
      "dstore_of items_ab"]
  note i2 = C1_path_resolution [of tree_ab "[''a'', ''z'']" "''p2''" "store_of tree_ab"
      items_ab "''a''" "[(subtask, ''z'')]" "[(subtask, ''a'')]" "dstore_of items_ab"]
  note i3 = C1_path_resolution [of tree_ab "[''a'', ''b'']" "''p2''" "store_of tree_ab"
      items_ab "''a''" "[(subtask, ''z'')]" "[]" "dstore_of items_ab"]
  note i4 = C1_path_resolution [of tree_ab "[''a'', ''b'']" "''p1''" "store_of tree_ab"
      items_ab "''a''" "[(subtask, ''b'')]" "[(subtask, ''a'')]" "dstore_of items_ab"]
  from i1 have "getTaskByPath_tasks tree_ab [''a'', ''b''] = Some (mk_task ''b'' [])"
    by (simp only: r)
  moreover from i2 have "getTaskByPath_tasks tree_ab [''a'', ''z''] = None"
    by (simp only: r)
  moreover from i1
  have "fst (getTaskByPath ''p1'' [''a'', ''b''] (store_of tree_ab)) = Some (mk_task ''b'' [])"
    by (simp only: r stored_tasks_store_of option.case)
  moreover from i3
  have "fst (getTaskByPath ''p2'' [''a'', ''b''] (store_of tree_ab)) = None"
    by (simp only: n option.case)
  moreover from i1
  have "getItemByPath_items items_ab [(deliverable, ''a''), (subtask, ''b'')]
      = Some (mk_item ''b'' [])"
    by (simp only: r)
  moreover from i2
  have "getItemByPath_items items_ab [(deliverable, ''a''), (subtask, ''z'')] = None"
    by (simp only: r)
  moreover from i1
  have "getItemByPath_items items_ab [(subtask, ''a''), (subtask, ''b'')] = None"
    by blast
  moreover from i1
  have "fst (getItemByPath ''p1'' [(deliverable, ''a''), (deliverable, ''b'')]
      (dstore_of items_ab)) = Some (mk_item ''b'' [])"
    by (simp only: r stored_deliverables_dstore_of option.case list.case prod.case
          if_True refl)
  moreover from i4
  have "fst (getItemByPath ''p1'' [(subtask, ''a'')] (dstore_of items_ab)) = None"
    by (simp only: stored_deliverables_dstore_of option.case list.case prod.case
          item_type.distinct if_False)
  ultimately show ?thesis by blast
qed

text \<open>
  Every id of the path \<open>[a, b]\<close> matches in \<open>[a[b]]\<close>, and the resolver of
  section 4.1 reaches \<open>b\<close>; \<open>getItemByPath\<close> returns null for it when the first
  segment has the type \<open>subtask\<close>.
\<close>

theorem C1_path_resolution_counterexample:
  "resolve_item items_ab [''a'', ''b''] = Some (mk_item ''b'' [])
   \<and> getItemByPath_items items_ab [(subtask, ''a''), (subtask, ''b'')] = None
   \<and> fst (getItemByPath ''p1'' [(subtask, ''a''), (subtask, ''b'')] (dstore_of items_ab))
       = None"
  by (simp add: items_ab_def mk_item_def getItemByPath_items_def getItemByPath_stored)

section \<open>Unfolding the recursive functions\<close>

lemma ids_Nil [simp]: "ids [] = []"
  by (simp add: ids_def)

lemma ids_Cons [simp]: "ids (t # ts) = task_id t # ids (children t) @ ids ts"
  by (cases t) (simp add: ids_def)

lemma item_ids_Nil [simp]: "item_ids [] = []"
  by (simp add: item_ids_def)

lemma item_ids_Cons [simp]: "item_ids (t # ts) = item_id t # item_ids (subTasks t) @ item_ids ts"
  by (cases t) (simp add: item_ids_def)

lemma updateNestedTask_Nil [simp]: "updateNestedTask tid d [] = []"
  by (subst updateNestedTask.simps) simp

lemma updateNestedTask_Cons [simp]:
  "updateNestedTask tid d (t # ts) =
     (if task_id t = tid then patchTask d t
      else if children t \<noteq> [] then Task (attrs t) (updateNestedTask tid d (children t))
      else t) # updateNestedTask tid d ts"
  by (subst updateNestedTask.simps, subst (3) updateNestedTask.simps) simp

lemma updateNestedTask_length [simp]:
  "length (updateNestedTask tid d ts) = length ts"
  by (subst updateNestedTask.simps) simp

lemma updateNestedTask_nth:
  "k < length ts \<Longrightarrow>
   updateNestedTask tid d ts ! k =
     (if task_id (ts ! k) = tid then patchTask d (ts ! k)
      else if children (ts ! k) \<noteq> [] then Task (attrs (ts ! k)) (updateNestedTask tid d (children (ts ! k)))
      else ts ! k)"
  by (subst updateNestedTask.simps) simp

lemma updateTaskInItem_length [simp]:
  "length (updateTaskInItem tid d ts) = length ts"
  by (subst updateTaskInItem.simps) simp

lemma updateTaskInItem_nth:
  "k < length ts \<Longrightarrow>
   updateTaskInItem tid d ts ! k =
     (if item_id (ts ! k) = tid then patchItem d (ts ! k)
      else if subTasks (ts ! k) \<noteq> [] then Item (iattrs (ts ! k)) (updateTaskInItem tid d (subTasks (ts ! k)))
      else ts ! k)"
  by (subst updateTaskInItem.simps) simp

lemma deleteNestedTask_map_filter:
  "deleteNestedTask tid ts =
     map (\<lambda>t. if children t \<noteq> [] then Task (attrs t) (deleteNestedTask tid (children t)) else t)
       (filter (\<lambda>t. task_id t \<noteq> tid) ts)"
  by (induction ts) simp_all

lemma deleteTaskFromItem_Nil [simp]: "deleteTaskFromItem tid [] = []"
  by (simp add: deleteTaskFromItem.simps [of tid "[]"])

lemma deleteTaskFromItem_Cons:
  "deleteTaskFromItem tid (x # xs) =
     Item (iattrs x)
       (map (\<lambda>t. Item (iattrs t) (deleteTaskFromItem tid (subTasks t)))
          (filter (\<lambda>t. item_id t \<noteq> tid) (subTasks x)))
     # deleteTaskFromItem tid xs"
  by (simp add: deleteTaskFromItem.simps [of tid "x # xs"] deleteTaskFromItem.simps [of tid xs])

lemma deleteTaskFromItem_length [simp]:
  "length (deleteTaskFromItem tid items) = length items"
  by (subst deleteTaskFromItem.simps) simp

lemma cleanTasks_Nil [simp]: "cleanTasks [] = []"
  by (subst cleanTasks.simps) simp

lemma cleanTasks_Cons [simp]:
  "cleanTasks (Task a cs # ts) =
     Task \<lparr> t_id = t_id a,
            t_name = str_or (t_name a) [],
            t_description = str_or (t_description a) [],
            t_hours = Some (num_or (t_hours a) (Num 0)),
            t_costPerHour = Some (num_or (t_costPerHour a) (Num 0)),
            t_assignedTo = Some (cleanAssignedTo (t_assignedTo a)),
            t_deadline = deadline_or_null (t_deadline a),
            t_completed = t_completed a,
            t_projectId = None \<rparr> (cleanTasks cs) # cleanTasks ts"
  by (subst cleanTasks.simps, subst (3) cleanTasks.simps) simp

lemma foldl_append_step:
  "foldl (\<lambda>acc x. (if P x then acc @ [g x] else acc) @ h x) acc xs =
     acc @ concat (map (\<lambda>x. (if P x then [g x] else []) @ h x) xs)"
  by (induction xs arbitrary: acc) simp_all

lemma foldl_append_concat:
  "foldl (\<lambda>acc x. acc @ f x) acc xs = acc @ concat (map f xs)"
  by (induction xs arbitrary: acc) simp_all

lemma findUserTasks_concat:
  "findUserTasks uid ts pid =
     concat (map (\<lambda>t. (if isAssigned uid t then [withProjectId pid t] else [])
                       @ findUserTasks uid (children t) pid) ts)"
  by (subst findUserTasks.simps) (simp add: Let_def foldl_append_step)

lemma findUserTasks_Nil [simp]: "findUserTasks uid [] pid = []"
  by (subst findUserTasks_concat) simp

lemma findUserTasks_Cons [simp]:
  "findUserTasks uid (t # ts) pid =
     (if isAssigned uid t then [withProjectId pid t] else [])
     @ findUserTasks uid (children t) pid @ findUserTasks uid ts pid"
  by (subst findUserTasks_concat, subst (3) findUserTasks_concat) simp

section \<open>Ids, unique ids and the resolver\<close>

lemma ids_member:
  "x \<in> set ts \<Longrightarrow> task_id x \<in> set (ids ts) \<and> set (ids (children x)) \<subseteq> set (ids ts)"
  by (induction ts) auto

lemma item_ids_member:
  "x \<in> set items \<Longrightarrow> item_id x \<in> set (item_ids items) \<and> set (item_ids (subTasks x)) \<subseteq> set (item_ids items)"
  by (induction items) auto

lemma distinct_children:
  "distinct (ids ts) \<Longrightarrow> t \<in> set ts \<Longrightarrow> distinct (ids (children t))"
  by (induction ts) auto

lemma distinct_top_not_below:
  "distinct (ids ts) \<Longrightarrow> n \<in> set ts \<Longrightarrow> t \<in> set ts \<Longrightarrow> task_id n \<notin> set (ids (children t))"
proof (induction ts)
  case Nil
  then show ?case by simp
next
  case (Cons x xs)
  then show ?case
    using ids_member [of n xs] ids_member [of t xs] by auto
qed

lemma distinct_branches_disjoint:
  "distinct (ids ts) \<Longrightarrow> t \<in> set ts \<Longrightarrow> t0 \<in> set ts \<Longrightarrow> task_id t \<noteq> task_id t0
   \<Longrightarrow> set (ids (children t)) \<inter> set (ids (children t0)) = {}"
proof (induction ts)
  case Nil
  then show ?case by simp
next
  case (Cons x xs)
  then show ?case
    using ids_member [of t xs] ids_member [of t0 xs] by auto
qed

lemma find_id_Some:
  "find (\<lambda>t. task_id t = i) ts = Some t0 \<Longrightarrow> t0 \<in> set ts \<and> task_id t0 = i"
  by (induction ts) (auto split: if_splits)

lemma find_map_same_id:
  "(\<And>t. task_id (g t) = task_id t) \<Longrightarrow>
   find (\<lambda>t. task_id t = i) (map g ts) = map_option g (find (\<lambda>t. task_id t = i) ts)"
  by (induction ts) simp_all

lemma find_append:
  "find P (xs @ ys) = (case find P xs of None \<Rightarrow> find P ys | Some x \<Rightarrow> Some x)"
  by (induction xs) simp_all

lemma resolve_Cons:
  "resolve ts (i # p) =
     (case find (\<lambda>t. task_id t = i) ts of
        None \<Rightarrow> None
      | Some t \<Rightarrow> if p = [] then Some t else resolve (children t) p)"
  by (cases p) (simp_all split: option.splits)

lemma resolve_last:
  "resolve ts (q @ [tid]) = Some n \<Longrightarrow> tid \<in> set (ids ts) \<and> task_id n = tid"
proof (induction q arbitrary: ts)
  case Nil
  then show ?case using find_id_Some [of tid ts n] ids_member [of n ts] by simp
next
  case (Cons i q)
  from Cons.prems obtain t0 where f: "find (\<lambda>t. task_id t = i) ts = Some t0"
    and r: "resolve (children t0) (q @ [tid]) = Some n"
    by (cases q) (auto split: option.splits)
  from Cons.IH [OF r] f show ?case
    using find_id_Some [of i ts t0] ids_member [of t0 ts] by auto
qed

section \<open>Normalisation\<close>

lemma str_or_empty [simp]: "str_or s [] = s"
  by (simp add: str_or_def)

lemma cleanUser_same [simp]: "cleanUser u = u"
  by (simp add: cleanUser_def)

lemma map_cleanUser [simp]: "map cleanUser us = us"
  by (rule map_idI) simp

lemma cleanAssignedTo_Some [simp]: "cleanAssignedTo (Some us) = us"
  by (simp add: cleanAssignedTo_def)

lemma num_or_zeroed:
  "num_or h (Num 0) = (case map_option zeroed h of None \<Rightarrow> Num 0 | Some n \<Rightarrow> n)"
  by (cases h) (auto simp: num_or_def falsy_number_def zeroed_def)

lemma num_or_not_falsy [simp]:
  "num_or h (Num 0) \<noteq> NegZero" "num_or h (Num 0) \<noteq> NaN"
  by (cases h; simp add: num_or_def falsy_number_def)+

lemma num_or_kept:
  "h \<noteq> None \<Longrightarrow> h \<noteq> Some NegZero \<Longrightarrow> h \<noteq> Some NaN \<Longrightarrow> Some (num_or h (Num 0)) = h"
  by (cases h) (auto simp: num_or_def falsy_number_def)

lemma cleanTasks_spec:
  "cleanTasks ts = map (substDefaults \<circ> otherChanges) ts"
  by (induction ts rule: preorder.induct)
     (auto simp: num_or_zeroed deadline_or_null_def cleanAssignedTo_def
           split: option.splits jsopt.splits intro!: task_fields.equality)

lemma cleanTasks_fields:
  "map (t_name \<circ> attrs) (cleanTasks ts) = map (\<lambda>t. str_or (t_name (attrs t)) []) ts"
  "map (t_description \<circ> attrs) (cleanTasks ts)
     = map (\<lambda>t. str_or (t_description (attrs t)) []) ts"
  "map (t_completed \<circ> attrs) (cleanTasks ts) = map (t_completed \<circ> attrs) ts"
  "map children (cleanTasks ts) = map (cleanTasks \<circ> children) ts"
  by (simp_all add: cleanTasks.simps [of ts] comp_def del: str_or_empty)

lemma cleanTasks_persisted:
  "list_all persisted (cleanTasks ts)"
  by (induction ts rule: preorder.induct)
     (auto simp: deadline_or_null_def split: jsopt.splits)

lemma persisted_fixed:
  "list_all persisted ts \<Longrightarrow> cleanTasks ts = ts"
  by (induction ts rule: preorder.induct)
     (auto simp: num_or_kept deadline_or_null_def split: option.splits jsopt.splits
           intro!: task_fields.equality)

lemma persisted_all_defined:
  "list_all persisted ts \<Longrightarrow> list_all all_defined ts"
  by (induction ts rule: preorder.induct) auto

lemma cleanTasks_idem: "cleanTasks (cleanTasks ts) = cleanTasks ts"
  by (rule persisted_fixed) (rule cleanTasks_persisted)

lemma cleanProjectData_tasks:
  "cleanProjectData pd = pd\<lparr> pd_tasks := cleanTasks (pd_tasks pd) \<rparr>"
  by (simp add: cleanProjectData_def)

lemma ids_cleanTasks [simp]: "ids (cleanTasks ts) = ids ts"
  by (induction ts rule: preorder.induct) simp_all

lemma clean_one_id [simp]: "task_id (substDefaults (otherChanges t)) = task_id t"
  by (cases t) simp

lemma clean_one_children [simp]:
  "children (substDefaults (otherChanges t)) = cleanTasks (children t)"
  by (cases t) (simp add: cleanTasks_spec)

lemma resolve_cleanTasks:
  "resolve (cleanTasks ts) p = map_option (substDefaults \<circ> otherChanges) (resolve ts p)"
proof (induction p arbitrary: ts)
  case Nil
  show ?case by simp
next
  case (Cons i p)
  have f: "find (\<lambda>t. task_id t = i) (cleanTasks ts) =
      map_option (substDefaults \<circ> otherChanges) (find (\<lambda>t. task_id t = i) ts)"
    by (simp only: cleanTasks_spec [of ts], rule find_map_same_id) simp
  show ?case
    by (cases "find (\<lambda>t. task_id t = i) ts") (simp_all add: resolve_Cons f Cons.IH)
qed

section \<open>The store operations on a stored project\<close>

lemma map_of_updateDoc:
  "map_of (updateDoc k c ds) k' =
     (if k' = k
      then map_option (\<lambda>d. d\<lparr> fd_name := pd_name c, fd_description := pd_description c,
                              fd_customer := pd_customer c, fd_tasks := Some (pd_tasks c) \<rparr>)
             (map_of ds k)
      else map_of ds k')"
  by (induction ds) (auto simp: updateDoc_def)

lemma updateProject_stored:
  "map_of (docs s) k \<noteq> None \<Longrightarrow>
   fst (updateProject k pd s) = Inr ()
   \<and> stored_tasks (snd (updateProject k pd s)) k = Some (cleanTasks (pd_tasks pd))
   \<and> currentUser (snd (updateProject k pd s)) = currentUser s"
  by (auto simp: updateProject_def Let_def stored_tasks_docs map_of_updateDoc cleanProjectData_def
      split: option.splits)

lemma fetchUserTasks_docs [simp]: "docs (fetchUserTasks s) = docs s"
  by (simp add: fetchUserTasks_def Let_def split: option.splits)

lemma addTask_stored:
  assumes "stored_tasks s k = Some ts"
  shows "fst (addTask k p td uuid s) = Inr ()
    \<and> stored_tasks (snd (addTask k p td uuid s)) k
        = Some (cleanTasks (addTask_tasks (newTask td uuid) ts p))"
proof -
  from assms obtain d where d: "map_of (docs s) k = Some d"
    and ts: "ts = (case fd_tasks d of None \<Rightarrow> [] | Some ts \<Rightarrow> ts)"
    by (auto simp: stored_tasks_docs)
  let ?s0 = "s\<lparr> loading := True, error := None \<rparr>"
  have f: "fetchProject k ?s0 = (Some (project_of_doc k d), ?s0\<lparr> loading := False \<rparr>)"
    using d by (simp add: fetchProject_def)
  let ?s1 = "?s0\<lparr> loading := False \<rparr>"
  let ?pd = "with_tasks (project_of_doc k d) (addTask_tasks (newTask td uuid) ts p)"
  have d1: "map_of (docs ?s1) k \<noteq> None" using d by simp
  from updateProject_stored [OF d1, of ?pd]
  obtain s2 where u: "updateProject k ?pd ?s1 = (Inr (), s2)"
    and st: "stored_tasks s2 k = Some (cleanTasks (addTask_tasks (newTask td uuid) ts p))"
    by (cases "updateProject k ?pd ?s1") (auto simp: with_tasks_def)
  have pt: "p_tasks (project_of_doc k d) = ts"
    by (simp add: project_of_doc_def ts)
  have "addTask k p td uuid s = (Inr (), s2\<lparr> loading := False \<rparr>)"
    using u by (simp add: addTask_def f pt Let_def)
  with st show ?thesis
    by (simp add: stored_tasks_docs)
qed

lemma updateTask_stored:
  assumes "stored_tasks s k = Some ts"
  shows "fst (updateTask k p tid data s) = Inr ()
    \<and> stored_tasks (snd (updateTask k p tid data s)) k
        = Some (cleanTasks (updateNestedTask tid data ts))"
proof -
  from assms obtain d where d: "map_of (docs s) k = Some d"
    and ts: "ts = (case fd_tasks d of None \<Rightarrow> [] | Some ts \<Rightarrow> ts)"
    by (auto simp: stored_tasks_docs)
  let ?s0 = "s\<lparr> loading := True, error := None \<rparr>"
  have f: "fetchProject k ?s0 = (Some (project_of_doc k d), ?s0\<lparr> loading := False \<rparr>)"
    using d by (simp add: fetchProject_def)
  let ?s1 = "?s0\<lparr> loading := False \<rparr>"
  let ?pd = "with_tasks (project_of_doc k d) (updateNestedTask tid data ts)"
  have d1: "map_of (docs ?s1) k \<noteq> None" using d by simp
  from updateProject_stored [OF d1, of ?pd]
  obtain s2 where u: "updateProject k ?pd ?s1 = (Inr (), s2)"
    and st: "stored_tasks s2 k = Some (cleanTasks (updateNestedTask tid data ts))"
    by (cases "updateProject k ?pd ?s1") (auto simp: with_tasks_def)
  have pt: "p_tasks (project_of_doc k d) = ts"
    by (simp add: project_of_doc_def ts)
  have "\<exists>s3. updateTask k p tid data s = (Inr (), s3) \<and> docs s3 = docs s2"
    using u by (simp add: updateTask_def f pt Let_def)
  with st show ?thesis
    by (auto simp: stored_tasks_docs)
qed

lemma deleteTask_stored:
  assumes "stored_tasks s k = Some ts"
  shows "fst (deleteTask k p tid s) = Inr ()
    \<and> stored_tasks (snd (deleteTask k p tid s)) k = Some (cleanTasks (deleteNestedTask tid ts))"
proof -
  from assms obtain d where d: "map_of (docs s) k = Some d"
    and ts: "ts = (case fd_tasks d of None \<Rightarrow> [] | Some ts \<Rightarrow> ts)"
    by (auto simp: stored_tasks_docs)
  let ?s0 = "s\<lparr> loading := True, error := None \<rparr>"
  have f: "fetchProject k ?s0 = (Some (project_of_doc k d), ?s0\<lparr> loading := False \<rparr>)"
    using d by (simp add: fetchProject_def)
  let ?s1 = "?s0\<lparr> loading := False \<rparr>"
  let ?pd = "with_tasks (project_of_doc k d) (deleteNestedTask tid ts)"
  have d1: "map_of (docs ?s1) k \<noteq> None" using d by simp
  from updateProject_stored [OF d1, of ?pd]
  obtain s2 where u: "updateProject k ?pd ?s1 = (Inr (), s2)"
    and st: "stored_tasks s2 k = Some (cleanTasks (deleteNestedTask tid ts))"
    by (cases "updateProject k ?pd ?s1") (auto simp: with_tasks_def)
  have pt: "p_tasks (project_of_doc k d) = ts"
    by (simp add: project_of_doc_def ts)
  have "deleteTask k p tid s = (Inr (), (fetchUserTasks s2)\<lparr> loading := False \<rparr>)"
    using u by (simp add: deleteTask_def f pt Let_def)
  with st show ?thesis
    by (simp add: stored_tasks_docs)
qed

text \<open>
  Of the mutating operations only \<open>toggleTaskCompletion\<close> fails on a path that does
  not resolve.
\<close>

lemma toggleTaskCompletion_unresolved:
  "fst (getTaskByPath projectId p s) = None \<Longrightarrow>
   fst (toggleTaskCompletion projectId p s) = Inl ''Task not found''"
  by (cases "getTaskByPath projectId p s")
     (simp add: toggleTaskCompletion_def split: option.splits)

lemmas ex_defs = tree_ab_def tree_abc_def tree_dup_def tree_xx_def items_ab_def items_dup_def
  mk_task_def mk_item_def store_of_def mk_store_def mk_doc_def td_X_def

subsection \<open>The document that \<open>updateProject\<close> writes\<close>

text \<open>
  C8 (as amended). The tasks \<open>cleanTasks\<close> returns have no undefined field at any
  depth: hours and cost per hour default to 0, the assignment list to the empty list
  and the deadline to null, while \<open>name\<close> and \<open>description\<close> (whose default
  is the empty string), \<open>completed\<close> and \<open>children\<close> hold the value of their
  declared type. The cleaned tree is the input with these default substitutions applied
  after three further changes: \<open>projectId\<close> is dropped, an empty-string
  deadline becomes null, and hours or a cost that are \<open>-0\<close> or \<open>NaN\<close> become 0.
  Cleaning is idempotent, its result has the persisted shape, the trees it leaves as
  they are are the trees of that shape, \<open>cleanProjectData\<close> changes only the tasks
  of a project, and the tasks \<open>updateProject\<close> stores are the cleaned ones. The
  name and the description of a cleaned task are \<open>name || ''\<close> and
  \<open>description || ''\<close>, its \<open>completed\<close> is the one it had, and its children
  are the cleaned children.
\<close>

theorem C8_normalisation:
  "list_all all_defined (cleanTasks ts)
   \<and> cleanTasks ts = map (substDefaults \<circ> otherChanges) ts
   \<and> cleanTasks (cleanTasks ts) = cleanTasks ts
   \<and> list_all persisted (cleanTasks ts)
   \<and> (list_all persisted ts \<longleftrightarrow> cleanTasks ts = ts)
   \<and> cleanProjectData pd = pd\<lparr> pd_tasks := cleanTasks (pd_tasks pd) \<rparr>
   \<and> (map_of (docs s) k \<noteq> None \<longrightarrow>
        fst (updateProject k pd s) = Inr ()
        \<and> stored_tasks (snd (updateProject k pd s)) k = Some (cleanTasks (pd_tasks pd)))
   \<and> map (t_name \<circ> attrs) (cleanTasks ts) = map (\<lambda>t. str_or (t_name (attrs t)) []) ts
   \<and> map (t_description \<circ> attrs) (cleanTasks ts)
       = map (\<lambda>t. str_or (t_description (attrs t)) []) ts
   \<and> map (t_completed \<circ> attrs) (cleanTasks ts) = map (t_completed \<circ> attrs) ts
   \<and> map children (cleanTasks ts) = map (cleanTasks \<circ> children) ts"
proof -
  have "cleanTasks ts = ts \<Longrightarrow> list_all persisted ts"
    using cleanTasks_persisted [of ts] by simp
  with persisted_all_defined [OF cleanTasks_persisted, of ts] cleanTasks_spec [of ts]
    cleanTasks_idem [of ts] cleanTasks_persisted [of ts] persisted_fixed [of ts]
    cleanProjectData_tasks [of pd] updateProject_stored [of s k pd]
    cleanTasks_fields [of ts]
  show ?thesis by blast
qed

theorem C8_normalisation_witness:
  "list_all persisted [task_clean]
   \<and> cleanTasks [task_clean] = [task_clean]
   \<and> list_all all_defined (cleanTasks tree_ab)
   \<and> cleanTasks tree_ab = map (substDefaults \<circ> otherChanges) tree_ab
   \<and> cleanTasks (cleanTasks tree_ab) = cleanTasks tree_ab
   \<and> map_of (docs (store_of [])) ''p1'' \<noteq> None
   \<and> stored_tasks (snd (updateProject ''p1''
          \<lparr> pd_name = ''Hull'', pd_description = [],
            pd_customer = \<lparr> c_name = [], c_phone = [], c_address = [] \<rparr>,
            pd_tasks = [task_nan_hours] \<rparr> (store_of []))) ''p1'' = Some [task_zero_hours]"
proof -
  have h: "list_all persisted [task_clean]"
    by (simp add: task_clean_def)
  have d: "map_of (docs (store_of [])) ''p1'' \<noteq> None"
    by (simp add: store_of_def mk_store_def)
  have c: "cleanTasks [task_nan_hours] = [task_zero_hours]"
    by (simp add: task_nan_hours_def task_zero_hours_def num_or_def falsy_number_def
          deadline_or_null_def)
  note a = C8_normalisation [of "[task_clean]"]
  note b = C8_normalisation [of tree_ab "\<lparr> pd_name = ''Hull'', pd_description = [],
            pd_customer = \<lparr> c_name = [], c_phone = [], c_address = [] \<rparr>,
            pd_tasks = [task_nan_hours] \<rparr>" "store_of []" "''p1''"]
  from b d have "stored_tasks (snd (updateProject ''p1''
          \<lparr> pd_name = ''Hull'', pd_description = [],
            pd_customer = \<lparr> c_name = [], c_phone = [], c_address = [] \<rparr>,
            pd_tasks = [task_nan_hours] \<rparr> (store_of []))) ''p1''
        = Some (cleanTasks (pd_tasks \<lparr> pd_name = ''Hull'', pd_description = [],
            pd_customer = \<lparr> c_name = [], c_phone = [], c_address = [] \<rparr>,
            pd_tasks = [task_nan_hours] \<rparr>))"
    by blast
  then have e: "stored_tasks (snd (updateProject ''p1''
          \<lparr> pd_name = ''Hull'', pd_description = [],
            pd_customer = \<lparr> c_name = [], c_phone = [], c_address = [] \<rparr>,
            pd_tasks = [task_nan_hours] \<rparr> (store_of []))) ''p1'' = Some [task_zero_hours]"
    by (simp only: project_data.select_convs c)
  from a b h d e show ?thesis by blast
qed

theorem C8_normalisation_counterexample:
  "list_all all_defined [task_with_project, task_empty_deadline, task_nan_hours]
   \<and> map substDefaults [task_with_project, task_empty_deadline, task_nan_hours]
       = [task_with_project, task_empty_deadline, task_nan_hours]
   \<and> cleanTasks [task_with_project, task_empty_deadline, task_nan_hours]
       = [task_clean, task_clean, task_zero_hours]
   \<and> task_clean \<noteq> task_with_project
   \<and> task_clean \<noteq> task_empty_deadline
   \<and> task_zero_hours \<noteq> task_nan_hours"
  by (simp add: task_clean_def task_with_project_def task_empty_deadline_def
        task_nan_hours_def task_zero_hours_def num_or_def falsy_number_def
        deadline_or_null_def)

section \<open>The operations of the store with deliverables\<close>

lemma map_of_replace:
  "map_of (map (\<lambda>(k, d). if k = ident then (k, v) else (k, d)) ds) k' =
     (if k' = ident then map_option (\<lambda>_. v) (map_of ds k') else map_of ds k')"
  by (induction ds) auto

lemma deleteSubTask_stored:
  "stored_deliverables s k = Some ds \<Longrightarrow>
   stored_deliverables (deleteSubTask k deliverableId tid s) k = Some (deleteTaskFromItem tid ds)"
  by (cases "map_of (ds_docs s) k")
     (simp_all add: stored_deliverables_docs deleteSubTask_def fetchProject_d_def
        updateProject_d_def Let_def map_of_replace)

lemma updateSubTask_stored:
  "stored_deliverables s k = Some ds \<Longrightarrow>
   stored_deliverables (updateSubTask k deliverableId tid data s) k
     = Some (updateTaskInItem tid data ds)"
  by (cases "map_of (ds_docs s) k")
     (simp_all add: stored_deliverables_docs updateSubTask_def fetchProject_d_def
        updateProject_d_def Let_def map_of_replace)


section \<open>Deletion\<close>

lemma deleteNestedTask_absent:
  "tid \<notin> set (ids ts) \<Longrightarrow> deleteNestedTask tid ts = ts"
  by (induction ts rule: preorder.induct) auto

lemma deleteNestedTask_removes:
  "tid \<notin> set (ids (deleteNestedTask tid ts))"
  by (induction ts rule: preorder.induct) auto

lemma deleteTaskFromItem_absent:
  "tid \<notin> set (item_ids items) \<Longrightarrow> deleteTaskFromItem tid items = items"
proof (induction tid items rule: deleteTaskFromItem.induct)
  case (1 taskId items)
  have sub: "\<And>x. x \<in> set items \<Longrightarrow> taskId \<notin> set (item_ids (subTasks x))"
    using "1.prems" item_ids_member by blast
  have keep: "\<And>x. x \<in> set items \<Longrightarrow> filter (\<lambda>t. item_id t \<noteq> taskId) (subTasks x) = subTasks x"
  proof -
    fix x assume "x \<in> set items"
    then have "taskId \<notin> set (item_ids (subTasks x))" by (rule sub)
    then have "\<forall>t \<in> set (subTasks x). item_id t \<noteq> taskId"
      using item_ids_member by blast
    then show "filter (\<lambda>t. item_id t \<noteq> taskId) (subTasks x) = subTasks x"
      by simp
  qed
  have inner: "\<And>x t. x \<in> set items \<Longrightarrow> t \<in> set (subTasks x) \<Longrightarrow>
      deleteTaskFromItem taskId (subTasks t) = subTasks t"
  proof -
    fix x t assume x: "x \<in> set items" and t: "t \<in> set (subTasks x)"
    from x have "taskId \<notin> set (item_ids (subTasks x))" by (rule sub)
    with t have nt: "taskId \<notin> set (item_ids (subTasks t))" and "item_id t \<noteq> taskId"
      using item_ids_member by blast+
    with x t have "t \<in> set (filter (\<lambda>t. item_id t \<noteq> taskId) (subTasks x))" by simp
    from "1.IH" [OF x this nt] show "deleteTaskFromItem taskId (subTasks t) = subTasks t" .
  qed
  have "deleteTaskFromItem taskId items = map (\<lambda>item. item) items"
    by (subst deleteTaskFromItem.simps, rule map_cong [OF refl])
       (simp add: keep inner cong: map_cong)
  then show ?case by simp
qed


lemma deleteTaskFromItem_nth:
  "k < length items \<Longrightarrow> tid \<notin> set (item_ids [items ! k]) \<Longrightarrow>
   deleteTaskFromItem tid items ! k = items ! k"
proof (induction items arbitrary: k)
  case Nil
  then show ?case by simp
next
  case (Cons y ys)
  show ?case
  proof (cases k)
    case 0
    with Cons.prems(2) have "deleteTaskFromItem tid [y] = [y]"
      by (intro deleteTaskFromItem_absent) simp
    with 0 show ?thesis by (simp add: deleteTaskFromItem_Cons)
  next
    case (Suc j)
    with Cons show ?thesis by (simp add: deleteTaskFromItem_Cons)
  qed
qed

text \<open>
  \<open>deleteNestedTask\<close> writes to the objects of its argument: after the call the
  tree passed in has lost the node as well.
\<close>

lemma deleteNestedTask_mutates_argument:
  "deleteNestedTask_argument_after ''b'' tree_ab = [mk_task ''a'' []]
   \<and> deleteNestedTask_argument_after ''b'' tree_ab \<noteq> tree_ab"
  by (simp add: deleteNestedTask_argument_after_def tree_ab_def mk_task_def)

text \<open>
  \<open>deleteTaskFromItem\<close> filters the sub-tasks of each item and recurses into the
  sub-tasks of the sub-tasks it keeps, so it filters every second level only: a
  sub-task of a sub-task of a deliverable is not removed.
\<close>

lemma deleteTaskFromItem_skips_second_level:
  "deleteTaskFromItem ''b'' [mk_item ''d'' [mk_item ''a'' [mk_item ''b'' []]]]
     = [mk_item ''d'' [mk_item ''a'' [mk_item ''b'' []]]]"
  by (simp add: mk_item_def deleteTaskFromItem_Cons)

text \<open>
  C6. Deleting an id that occurs nowhere in the tree returns the tree itself, in both
  stores; the store operation \<open>deleteTask\<close> then raises no error and stores the
  normalised tree, and \<open>deleteSubTask\<close>, which never throws, stores the tree as it
  was.
\<close>

theorem C6_delete_absent:
  "(tid \<notin> set (ids ts) \<longrightarrow> deleteNestedTask tid ts = ts)
   \<and> (tid \<notin> set (item_ids items) \<longrightarrow> deleteTaskFromItem tid items = items)
   \<and> (stored_tasks s projectId = Some ts \<longrightarrow> tid \<notin> set (ids ts) \<longrightarrow>
        fst (deleteTask projectId p tid s) = Inr ()
        \<and> stored_tasks (snd (deleteTask projectId p tid s)) projectId = Some (cleanTasks ts))
   \<and> (stored_deliverables s' projectId = Some items \<longrightarrow> tid \<notin> set (item_ids items) \<longrightarrow>
        stored_deliverables (deleteSubTask projectId dv tid s') projectId = Some items)"
  using deleteNestedTask_absent [of tid ts] deleteTaskFromItem_absent [of tid items]
    deleteTask_stored [of s projectId ts p tid]
    deleteSubTask_stored [of s' projectId items dv tid]
  by auto

theorem C6_delete_absent_witness:
  "''z'' \<notin> set (ids tree_ab) \<and> deleteNestedTask ''z'' tree_ab = tree_ab
   \<and> ''z'' \<notin> set (item_ids items_ab) \<and> deleteTaskFromItem ''z'' items_ab = items_ab
   \<and> stored_tasks (store_of tree_ab) ''p1'' = Some tree_ab
   \<and> fst (deleteTask ''p1'' [''a''] ''z'' (store_of tree_ab)) = Inr ()
   \<and> stored_tasks (snd (deleteTask ''p1'' [''a''] ''z'' (store_of tree_ab))) ''p1''
       = Some (cleanTasks tree_ab)
   \<and> stored_deliverables (dstore_of items_ab) ''p1'' = Some items_ab
   \<and> stored_deliverables (deleteSubTask ''p1'' ''a'' ''z'' (dstore_of items_ab)) ''p1''
       = Some items_ab"
proof -
  have h: "''z'' \<notin> set (ids tree_ab)" "''z'' \<notin> set (item_ids items_ab)"
    by (simp_all add: tree_ab_def items_ab_def mk_task_def mk_item_def)
  have st: "stored_tasks (store_of tree_ab) ''p1'' = Some tree_ab"
    "stored_deliverables (dstore_of items_ab) ''p1'' = Some items_ab"
    by simp_all
  from C6_delete_absent [of "''z''" tree_ab items_ab "store_of tree_ab" "''p1''" "[''a'']"
      "dstore_of items_ab" "''a''"] h st
  show ?thesis by blast
qed




section \<open>Edits that walk a path and edits that scan for an id\<close>

lemma updateNestedTask_absent:
  "tid \<notin> set (ids ts) \<Longrightarrow> updateNestedTask tid d ts = ts"
  by (induction ts rule: preorder.induct) auto

lemma updateNestedTasks_along:
  "updateNestedTasks new ts p = along p (\<lambda>cs. cs @ [new]) ts"
  by (induction p arbitrary: ts) simp_all

lemma updateNestedTask_along:
  "distinct (ids ts) \<Longrightarrow> resolve ts (q @ [tid]) = Some n \<Longrightarrow>
   updateNestedTask tid d ts =
     along q (map (\<lambda>t. if task_id t = tid then patchTask d t else t)) ts"
proof (induction q arbitrary: ts)
  case Nil
  from Nil.prems(2) have n: "n \<in> set ts" "task_id n = tid"
    using find_id_Some [of tid ts n] by simp_all
  have "\<And>t. t \<in> set ts \<Longrightarrow> updateNestedTask tid d (children t) = children t"
    using distinct_top_not_below [OF Nil.prems(1) n(1)] n(2)
    by (simp add: updateNestedTask_absent)
  then show ?case
    by (subst updateNestedTask.simps) (auto intro!: map_cong [OF refl] simp: task.expand)
next
  case (Cons i q)
  from Cons.prems(2) obtain t0 where f: "find (\<lambda>t. task_id t = i) ts = Some t0"
    and r: "resolve (children t0) (q @ [tid]) = Some n"
    by (cases q) (auto split: option.splits)
  from f have t0: "t0 \<in> set ts" "task_id t0 = i"
    using find_id_Some by blast+
  from resolve_last [OF r] have inside: "tid \<in> set (ids (children t0))" by simp
  have top: "\<And>t. t \<in> set ts \<Longrightarrow> task_id t \<noteq> tid"
    using distinct_top_not_below [OF Cons.prems(1) _ t0(1)] inside by blast
  have here: "\<And>t. t \<in> set ts \<Longrightarrow> task_id t = i \<Longrightarrow>
      children t \<noteq> [] \<and> updateNestedTask tid d (children t) =
        along q (map (\<lambda>t. if task_id t = tid then patchTask d t else t)) (children t)"
  proof -
    fix t assume t: "t \<in> set ts" "task_id t = i"
    have "t = t0"
    proof (rule ccontr)
      assume "t \<noteq> t0"
      with t t0 Cons.prems(1) show False
        by (induction ts) (auto dest: ids_member)
    qed
    with r inside Cons.IH [OF distinct_children [OF Cons.prems(1) t0(1)] r]
    show "children t \<noteq> [] \<and> updateNestedTask tid d (children t) =
        along q (map (\<lambda>t. if task_id t = tid then patchTask d t else t)) (children t)"
      by auto
  qed
  have other: "\<And>t. t \<in> set ts \<Longrightarrow> task_id t \<noteq> i \<Longrightarrow>
      updateNestedTask tid d (children t) = children t"
  proof -
    fix t assume t: "t \<in> set ts" "task_id t \<noteq> i"
    from distinct_branches_disjoint [OF Cons.prems(1) t(1) t0(1)] t(2) t0(2) inside
    have "tid \<notin> set (ids (children t))" by auto
    then show "updateNestedTask tid d (children t) = children t"
      by (rule updateNestedTask_absent)
  qed
  show ?case
    by (subst updateNestedTask.simps)
       (auto intro!: map_cong [OF refl] simp: top here other task.expand)
qed

lemma deleteNestedTask_along:
  "distinct (ids ts) \<Longrightarrow> resolve ts (q @ [tid]) = Some n \<Longrightarrow>
   deleteNestedTask tid ts = along q (filter (\<lambda>t. task_id t \<noteq> tid)) ts"
proof (induction q arbitrary: ts)
  case Nil
  from Nil.prems(2) have n: "n \<in> set ts" "task_id n = tid"
    using find_id_Some [of tid ts n] by simp_all
  have "\<And>t. t \<in> set ts \<Longrightarrow> deleteNestedTask tid (children t) = children t"
    using distinct_top_not_below [OF Nil.prems(1) n(1)] n(2)
    by (simp add: deleteNestedTask_absent)
  then have "map (\<lambda>t. if children t \<noteq> [] then Task (attrs t) (deleteNestedTask tid (children t)) else t)
       (filter (\<lambda>t. task_id t \<noteq> tid) ts) = map (\<lambda>t. t) (filter (\<lambda>t. task_id t \<noteq> tid) ts)"
    by (intro map_cong [OF refl]) (auto simp: task.expand)
  then show ?case
    by (simp add: deleteNestedTask_map_filter [of tid ts])
next
  case (Cons i q)
  from Cons.prems(2) obtain t0 where f: "find (\<lambda>t. task_id t = i) ts = Some t0"
    and r: "resolve (children t0) (q @ [tid]) = Some n"
    by (cases q) (auto split: option.splits)
  from f have t0: "t0 \<in> set ts" "task_id t0 = i"
    using find_id_Some by blast+
  from resolve_last [OF r] have inside: "tid \<in> set (ids (children t0))" by simp
  have top: "\<And>t. t \<in> set ts \<Longrightarrow> task_id t \<noteq> tid"
    using distinct_top_not_below [OF Cons.prems(1) _ t0(1)] inside by blast
  then have keep: "filter (\<lambda>t. task_id t \<noteq> tid) ts = ts"
    by simp
  have here: "\<And>t. t \<in> set ts \<Longrightarrow> task_id t = i \<Longrightarrow>
      children t \<noteq> [] \<and> deleteNestedTask tid (children t) =
        along q (filter (\<lambda>t. task_id t \<noteq> tid)) (children t)"
  proof -
    fix t assume t: "t \<in> set ts" "task_id t = i"
    have "t = t0"
    proof (rule ccontr)
      assume "t \<noteq> t0"
      with t t0 Cons.prems(1) show False
        by (induction ts) (auto dest: ids_member)
    qed
    with r inside Cons.IH [OF distinct_children [OF Cons.prems(1) t0(1)] r]
    show "children t \<noteq> [] \<and> deleteNestedTask tid (children t) =
        along q (filter (\<lambda>t. task_id t \<noteq> tid)) (children t)"
      by auto
  qed
  have other: "\<And>t. t \<in> set ts \<Longrightarrow> task_id t \<noteq> i \<Longrightarrow>
      deleteNestedTask tid (children t) = children t"
  proof -
    fix t assume t: "t \<in> set ts" "task_id t \<noteq> i"
    from distinct_branches_disjoint [OF Cons.prems(1) t(1) t0(1)] t(2) t0(2) inside
    have "tid \<notin> set (ids (children t))" by auto
    then show "deleteNestedTask tid (children t) = children t"
      by (rule deleteNestedTask_absent)
  qed
  show ?case
    by (subst deleteNestedTask_map_filter)
       (auto intro!: map_cong [OF refl] simp: keep here other task.expand)
qed

lemma find_along:
  "find (\<lambda>t. task_id t = j) (along (i # p) f ts) =
     map_option (\<lambda>t. if task_id t = i then Task (attrs t) (along p f (children t)) else t)
       (find (\<lambda>t. task_id t = j) ts)"
  by (simp only: along.simps, rule find_map_same_id) simp

lemma along_frame:
  "\<not> prefix r p \<Longrightarrow> \<not> prefix p r \<Longrightarrow> resolve (along p f ts) r = resolve ts r"
proof (induction p arbitrary: r ts)
  case Nil
  then show ?case by simp
next
  case (Cons i p)
  from Cons.prems obtain j r' where r: "r = j # r'" by (cases r) auto
  show ?case
  proof (cases "find (\<lambda>t. task_id t = j) ts")
    case None
    then show ?thesis by (simp only: r resolve_Cons find_along) simp
  next
    case (Some t)
    then have tj: "task_id t = j" using find_id_Some by blast
    show ?thesis
    proof (cases "j = i")
      case False
      with Some tj show ?thesis by (simp only: r resolve_Cons find_along) simp
    next
      case True
      with Cons.prems r have np: "\<not> prefix r' p" "\<not> prefix p r'" by simp_all
      then have "r' \<noteq> []" by auto
      with Some tj True Cons.IH [OF np] show ?thesis
        by (simp only: r resolve_Cons find_along) simp
    qed
  qed
qed

lemma along_path_attrs:
  "prefix r p \<Longrightarrow> map_option attrs (resolve (along p f ts) r) = map_option attrs (resolve ts r)"
proof (induction p arbitrary: r ts)
  case Nil
  then show ?case by simp
next
  case (Cons i p)
  show ?case
  proof (cases r)
    case Nil
    then show ?thesis by simp
  next
    case (Cons j r')
    with Cons.prems have ji: "j = i" and pr: "prefix r' p" by simp_all
    show ?thesis
    proof (cases "find (\<lambda>t. task_id t = j) ts")
      case None
      then show ?thesis by (simp only: Cons resolve_Cons find_along) simp
    next
      case (Some t)
      then have tj: "task_id t = j" using find_id_Some by blast
      with Some ji Cons.IH [OF pr, of "children t"] show ?thesis
        by (simp only: Cons resolve_Cons find_along) simp
    qed
  qed
qed

lemma along_unresolved:
  "p \<noteq> [] \<Longrightarrow> distinct (ids ts) \<Longrightarrow> resolve ts p = None \<Longrightarrow> along p f ts = ts"
proof (induction p arbitrary: ts)
  case Nil
  then show ?case by simp
next
  case (Cons i p)
  show ?case
  proof (cases "find (\<lambda>t. task_id t = i) ts")
    case None
    then have "\<And>t. t \<in> set ts \<Longrightarrow> task_id t \<noteq> i"
      by (auto simp: find_None_iff)
    then show ?thesis by (simp add: map_idI)
  next
    case (Some t0)
    then have t0: "t0 \<in> set ts" "task_id t0 = i" using find_id_Some by blast+
    from Some Cons.prems(3) have pne: "p \<noteq> []" and r: "resolve (children t0) p = None"
      by (auto simp: resolve_Cons split: if_splits)
    have same: "\<And>t. t \<in> set ts \<Longrightarrow> task_id t = i \<Longrightarrow> t = t0"
    proof (rule ccontr)
      fix t assume "t \<in> set ts" "task_id t = i" "t \<noteq> t0"
      with t0 Cons.prems(2) show False
        by (induction ts) (auto dest: ids_member)
    qed
    from Cons.IH [OF pne distinct_children [OF Cons.prems(2) t0(1)] r]
    have "along p f (children t0) = children t0" .
    with same show ?thesis by (auto intro!: map_idI)
  qed
qed

lemma add_resolve:
  "resolve ts p = Some parent \<Longrightarrow> uuid \<notin> task_id ` set (children parent) \<Longrightarrow> task_id new = uuid \<Longrightarrow>
   resolve (updateNestedTasks new ts p) (p @ [uuid]) = Some new
   \<and> resolve (updateNestedTasks new ts p) p = Some (Task (attrs parent) (children parent @ [new]))"
proof (induction p arbitrary: ts)
  case Nil
  then show ?case by simp
next
  case (Cons i p)
  from Cons.prems(1) obtain t0 where f: "find (\<lambda>t. task_id t = i) ts = Some t0"
    by (auto simp: resolve_Cons split: option.splits)
  then have t0: "task_id t0 = i" using find_id_Some by blast
  have "find (\<lambda>t. task_id t = uuid) (children parent) = None"
    using Cons.prems(2) by (auto simp: find_None_iff)
  then have fresh: "find (\<lambda>t. task_id t = uuid) (children parent @ [new]) = Some new"
    using Cons.prems(3) by (simp add: find_append)
  show ?case
  proof (cases "p = []")
    case True
    with f Cons.prems(1) have "t0 = parent" by (simp add: resolve_Cons)
    with True f t0 fresh show ?thesis
      by (simp add: updateNestedTasks_along resolve_Cons find_along del: along.simps(2))
  next
    case False
    with f Cons.prems(1) have "resolve (children t0) p = Some parent"
      by (simp add: resolve_Cons)
    from Cons.IH [OF this Cons.prems(2,3)] False f t0 show ?thesis
      by (simp add: updateNestedTasks_along resolve_Cons find_along del: along.simps(2))
  qed
qed

lemma node_at_Nil [simp]: "node_at [] ix = None"
  by (induction "[] :: task list" ix rule: node_at.induct) simp_all

lemma patchTask_children [simp]: "children (patchTask d t) = children t"
  by (simp add: patchTask_def)

lemma updateNestedTask_at:
  "node_at ts ix = Some n \<Longrightarrow>
   node_at (updateNestedTask tid d ts) ix =
     Some (if tid \<in> set (ancestor_ids ts ix) then n
           else if task_id n = tid then patchTask d n
           else if children n \<noteq> [] then Task (attrs n) (updateNestedTask tid d (children n))
           else n)"
proof (induction ts ix rule: node_at.induct)
  case (1 ts)
  then show ?case by simp
next
  case (2 ts k)
  then show ?case by (auto simp: updateNestedTask_nth split: if_splits)
next
  case (3 ts k l ix)
  from "3.prems" have k: "k < length ts" and sub: "node_at (children (ts ! k)) (l # ix) = Some n"
    by (simp_all split: if_splits)
  from sub have ne: "children (ts ! k) \<noteq> []" by auto
  show ?case
  proof (cases "task_id (ts ! k) = tid")
    case True
    with k sub show ?thesis by (simp add: updateNestedTask_nth)
  next
    case False
    with k ne "3.IH" [OF k sub] show ?thesis by (simp add: updateNestedTask_nth)
  qed
qed

lemma deleteTaskFromItem_iattrs:
  "map iattrs (deleteTaskFromItem tid items) = map iattrs items"
  by (subst deleteTaskFromItem.simps) (simp add: comp_def)

lemma updateTask_any_path:
  "updateTask projectId p tid d s = updateTask projectId p' tid d s"
  by (simp add: updateTask_def)

lemma deleteTask_any_path:
  "deleteTask projectId p tid s = deleteTask projectId p' tid s"
  by (simp add: deleteTask_def)

text \<open>
  C2 (as amended). What each transformer returns differs from the tree it is given as
  follows. \<open>addTask\<close> rebuilds only the nodes met while matching the ids of the
  supplied path and appends the new node to the children the path leads to
  (\<open>along\<close>). \<open>updateTask\<close> and \<open>deleteTask\<close> do not consult the path, so
  they return the same result for every path. \<open>updateTask\<close> patches each node that
  has the id and no ancestor with the id: a node below a node with the id is returned as
  it is, a patched node keeps its children, and every other node is rebuilt around its
  updated children. \<open>deleteTask\<close> leaves no node with the id at any depth. On a tree
  whose ids are unique, in which the id lies at the end of the path \<open>q @ [tid]\<close>,
  both are the edit that walks \<open>q\<close>; when the id is absent they return the tree
  itself. An edit that walks a path returns every node off the path unchanged, and
  changes only the children of the nodes on it. \<open>deleteTaskFromItem\<close> keeps every
  top-level item in place with its own fields and returns unchanged each one whose
  subtree lacks the id.
\<close>

theorem C2_frame:
  "updateNestedTasks new ts p = along p (\<lambda>cs. cs @ [new]) ts
   \<and> (distinct (ids ts) \<longrightarrow> resolve ts (q @ [tid]) = Some n \<longrightarrow>
        updateNestedTask tid d ts =
          along q (map (\<lambda>t. if task_id t = tid then patchTask d t else t)) ts
        \<and> deleteNestedTask tid ts = along q (filter (\<lambda>t. task_id t \<noteq> tid)) ts)
   \<and> (tid \<notin> set (ids ts) \<longrightarrow>
        updateNestedTask tid d ts = ts \<and> deleteNestedTask tid ts = ts)
   \<and> (\<not> prefix r p \<longrightarrow> \<not> prefix p r \<longrightarrow> resolve (along p f ts) r = resolve ts r)
   \<and> (prefix r p \<longrightarrow>
        map_option attrs (resolve (along p f ts) r) = map_option attrs (resolve ts r))
   \<and> length (deleteTaskFromItem tid items) = length items
   \<and> (k < length items \<longrightarrow> tid \<notin> set (item_ids [items ! k]) \<longrightarrow>
        deleteTaskFromItem tid items ! k = items ! k)
   \<and> map iattrs (deleteTaskFromItem tid items) = map iattrs items
   \<and> (node_at ts ix = Some m \<longrightarrow>
        node_at (updateNestedTask tid d ts) ix =
          Some (if tid \<in> set (ancestor_ids ts ix) then m
                else if task_id m = tid then patchTask d m
                else if children m \<noteq> []
                then Task (attrs m) (updateNestedTask tid d (children m))
                else m))
   \<and> children (patchTask d m) = children m
   \<and> tid \<notin> set (ids (deleteNestedTask tid ts))
   \<and> updateTask projectId p tid d s = updateTask projectId p' tid d s
   \<and> deleteTask projectId p tid s = deleteTask projectId p' tid s"
proof (intro conjI impI)
  show "updateNestedTasks new ts p = along p (\<lambda>cs. cs @ [new]) ts"
    by (rule updateNestedTasks_along)
next
  assume "distinct (ids ts)" "resolve ts (q @ [tid]) = Some n"
  then show "updateNestedTask tid d ts =
      along q (map (\<lambda>t. if task_id t = tid then patchTask d t else t)) ts"
    by (rule updateNestedTask_along)
next
  assume "distinct (ids ts)" "resolve ts (q @ [tid]) = Some n"
  then show "deleteNestedTask tid ts = along q (filter (\<lambda>t. task_id t \<noteq> tid)) ts"
    by (rule deleteNestedTask_along)
next
  assume "tid \<notin> set (ids ts)"
  then show "updateNestedTask tid d ts = ts"
    by (rule updateNestedTask_absent)
next
  assume "tid \<notin> set (ids ts)"
  then show "deleteNestedTask tid ts = ts"
    by (rule deleteNestedTask_absent)
next
  assume "\<not> prefix r p" "\<not> prefix p r"
  then show "resolve (along p f ts) r = resolve ts r"
    by (rule along_frame)
next
  assume "prefix r p"
  then show "map_option attrs (resolve (along p f ts) r) = map_option attrs (resolve ts r)"
    by (rule along_path_attrs)
next
  show "length (deleteTaskFromItem tid items) = length items"
    by simp
next
  assume "k < length items" "tid \<notin> set (item_ids [items ! k])"
  then show "deleteTaskFromItem tid items ! k = items ! k"
    by (rule deleteTaskFromItem_nth)
next
  show "map iattrs (deleteTaskFromItem tid items) = map iattrs items"
    by (rule deleteTaskFromItem_iattrs)
next
  assume "node_at ts ix = Some m"
  then show "node_at (updateNestedTask tid d ts) ix =
      Some (if tid \<in> set (ancestor_ids ts ix) then m
            else if task_id m = tid then patchTask d m
            else if children m \<noteq> []
            then Task (attrs m) (updateNestedTask tid d (children m))
            else m)"
    by (rule updateNestedTask_at)
next
  show "children (patchTask d m) = children m"
    by (rule patchTask_children)
next
  show "tid \<notin> set (ids (deleteNestedTask tid ts))"
    by (rule deleteNestedTask_removes)
next
  show "updateTask projectId p tid d s = updateTask projectId p' tid d s"
    by (rule updateTask_any_path)
next
  show "deleteTask projectId p tid s = deleteTask projectId p' tid s"
    by (rule deleteTask_any_path)
qed

theorem C2_frame_witness:
  "distinct (ids tree_abc)
   \<and> resolve tree_abc ([''a''] @ [''b'']) = Some (mk_task ''b'' [])
   \<and> updateNestedTasks (mk_task ''n'' []) tree_abc [''a'']
       = [mk_task ''a'' [mk_task ''b'' [], mk_task ''n'' []], mk_task ''c'' [mk_task ''e'' []]]
   \<and> updateNestedTask ''b'' (only_completed True) tree_abc
       = [mk_task ''a'' [patchTask (only_completed True) (mk_task ''b'' [])],
          mk_task ''c'' [mk_task ''e'' []]]
   \<and> deleteNestedTask ''b'' tree_abc = [mk_task ''a'' [], mk_task ''c'' [mk_task ''e'' []]]
   \<and> ''z'' \<notin> set (ids tree_abc)
   \<and> updateNestedTask ''z'' (only_completed True) tree_abc = tree_abc
   \<and> deleteNestedTask ''z'' tree_abc = tree_abc
   \<and> \<not> prefix [''c'', ''e''] [''a''] \<and> \<not> prefix [''a''] [''c'', ''e'']
   \<and> resolve (along [''a''] (\<lambda>cs. cs @ [mk_task ''n'' []]) tree_abc) [''c'', ''e'']
       = Some (mk_task ''e'' [])
   \<and> prefix [''a''] [''a'']
   \<and> map_option attrs (resolve (along [''a''] (\<lambda>cs. cs @ [mk_task ''n'' []]) tree_abc) [''a''])
       = Some (attrs (mk_task ''a'' []))
   \<and> ''b'' \<notin> set (item_ids [items_dup ! 0])
   \<and> deleteTaskFromItem ''b'' items_dup ! 0 = items_dup ! 0
   \<and> node_at tree_xx [0, 0] = Some (mk_task ''x'' [])
   \<and> node_at (updateNestedTask ''x'' (only_completed True) tree_xx) [0, 0]
       = Some (mk_task ''x'' [])
   \<and> node_at tree_dup [1, 0] = Some (mk_task ''dup'' [])
   \<and> node_at (updateNestedTask ''dup'' (only_completed True) tree_dup) [1, 0]
       = Some (patchTask (only_completed True) (mk_task ''dup'' []))
   \<and> ''dup'' \<notin> set (ids (deleteNestedTask ''dup'' tree_dup))
   \<and> updateTask ''p1'' [''a''] ''dup'' (only_completed True) (store_of tree_dup)
       = updateTask ''p1'' [''c''] ''dup'' (only_completed True) (store_of tree_dup)"
proof -
  note i1 = C2_frame [of "mk_task ''n'' []" tree_abc "[''a'']" "[''a'']" "''b''"
      "mk_task ''b'' []" "only_completed True" "[''c'', ''e'']"
      "\<lambda>cs. cs @ [mk_task ''n'' []]" items_dup 0 "[0]" "mk_task ''a'' [mk_task ''b'' []]"
      "''p1''" "store_of tree_abc" "[]"]
  note i2 = C2_frame [of "mk_task ''n'' []" tree_abc "[''a'']" "[''a'']" "''z''"
      "mk_task ''b'' []" "only_completed True" "[''a'']"
      "\<lambda>cs. cs @ [mk_task ''n'' []]" items_dup 0 "[0]" "mk_task ''a'' [mk_task ''b'' []]"
      "''p1''" "store_of tree_abc" "[]"]
  note i3 = C2_frame [of "mk_task ''n'' []" tree_xx "[''a'']" "[''a'']" "''x''"
      "mk_task ''b'' []" "only_completed True" "[''a'']"
      "\<lambda>cs. cs @ [mk_task ''n'' []]" items_dup 0 "[0, 0]" "mk_task ''x'' []"
      "''p1''" "store_of tree_xx" "[]"]
  note i4 = C2_frame [of "mk_task ''n'' []" tree_dup "[''a'']" "[''a'']" "''dup''"
      "mk_task ''b'' []" "only_completed True" "[''a'']"
      "\<lambda>cs. cs @ [mk_task ''n'' []]" items_dup 0 "[1, 0]" "mk_task ''dup'' []"
      "''p1''" "store_of tree_dup" "[''c'']"]
  have x: "node_at tree_xx [0, 0] = Some (mk_task ''x'' [])"
    "''x'' \<in> set (ancestor_ids tree_xx [0, 0])"
    by (simp_all add: tree_xx_def mk_task_def)
  have u: "node_at tree_dup [1, 0] = Some (mk_task ''dup'' [])"
    "''dup'' \<notin> set (ancestor_ids tree_dup [1, 0])"
    "task_id (mk_task ''dup'' []) = ''dup''"
    by (simp_all add: tree_dup_def mk_task_def)
  from i3 x(1) have "node_at (updateNestedTask ''x'' (only_completed True) tree_xx) [0, 0] =
      Some (if ''x'' \<in> set (ancestor_ids tree_xx [0, 0]) then mk_task ''x'' []
            else if task_id (mk_task ''x'' []) = ''x''
            then patchTask (only_completed True) (mk_task ''x'' [])
            else if children (mk_task ''x'' []) \<noteq> []
            then Task (attrs (mk_task ''x'' []))
                   (updateNestedTask ''x'' (only_completed True) (children (mk_task ''x'' [])))
            else mk_task ''x'' [])"
    by blast
  then have a: "node_at (updateNestedTask ''x'' (only_completed True) tree_xx) [0, 0]
      = Some (mk_task ''x'' [])"
    by (simp only: x(2) if_True)
  from i4 u(1) have "node_at (updateNestedTask ''dup'' (only_completed True) tree_dup) [1, 0] =
      Some (if ''dup'' \<in> set (ancestor_ids tree_dup [1, 0]) then mk_task ''dup'' []
            else if task_id (mk_task ''dup'' []) = ''dup''
            then patchTask (only_completed True) (mk_task ''dup'' [])
            else if children (mk_task ''dup'' []) \<noteq> []
            then Task (attrs (mk_task ''dup'' []))
                   (updateNestedTask ''dup'' (only_completed True)
                      (children (mk_task ''dup'' [])))
            else mk_task ''dup'' [])"
    by blast
  then have b: "node_at (updateNestedTask ''dup'' (only_completed True) tree_dup) [1, 0]
      = Some (patchTask (only_completed True) (mk_task ''dup'' []))"
    using u(2) by (simp only: u(3) if_False if_True refl)
  from i4 have c: "''dup'' \<notin> set (ids (deleteNestedTask ''dup'' tree_dup))"
    by blast
  from i4 have e: "updateTask ''p1'' [''a''] ''dup'' (only_completed True) (store_of tree_dup)
       = updateTask ''p1'' [''c''] ''dup'' (only_completed True) (store_of tree_dup)"
    by blast
  have h: "distinct (ids tree_abc)"
    "resolve tree_abc ([''a''] @ [''b'']) = Some (mk_task ''b'' [])"
    "''z'' \<notin> set (ids tree_abc)"
    "\<not> prefix [''c'', ''e''] [''a'']" "\<not> prefix [''a''] [''c'', ''e'']"
    "prefix [''a''] [''a'']"
    "''b'' \<notin> set (item_ids [items_dup ! 0])"
    "0 < length items_dup"
    by (simp_all add: ex_defs ids_def item_ids_def)
  have v: "along [''a''] (\<lambda>cs. cs @ [mk_task ''n'' []]) tree_abc
      = [mk_task ''a'' [mk_task ''b'' [], mk_task ''n'' []], mk_task ''c'' [mk_task ''e'' []]]"
    "along [''a''] (map (\<lambda>t. if task_id t = ''b'' then patchTask (only_completed True) t
        else t)) tree_abc
      = [mk_task ''a'' [patchTask (only_completed True) (mk_task ''b'' [])],
         mk_task ''c'' [mk_task ''e'' []]]"
    "along [''a''] (filter (\<lambda>t. task_id t \<noteq> ''b'')) tree_abc
      = [mk_task ''a'' [], mk_task ''c'' [mk_task ''e'' []]]"
    "resolve tree_abc [''c'', ''e''] = Some (mk_task ''e'' [])"
    "map_option attrs (resolve tree_abc [''a'']) = Some (attrs (mk_task ''a'' []))"
    by (simp_all add: ex_defs)
  from i1 have "updateNestedTasks (mk_task ''n'' []) tree_abc [''a'']
      = along [''a''] (\<lambda>cs. cs @ [mk_task ''n'' []]) tree_abc"
    by blast
  then have w1: "updateNestedTasks (mk_task ''n'' []) tree_abc [''a'']
      = [mk_task ''a'' [mk_task ''b'' [], mk_task ''n'' []], mk_task ''c'' [mk_task ''e'' []]]"
    by (simp only: v)
  from i1 h(1,2) have "updateNestedTask ''b'' (only_completed True) tree_abc
      = along [''a''] (map (\<lambda>t. if task_id t = ''b'' then patchTask (only_completed True) t
          else t)) tree_abc"
    by blast
  then have w2: "updateNestedTask ''b'' (only_completed True) tree_abc
      = [mk_task ''a'' [patchTask (only_completed True) (mk_task ''b'' [])],
         mk_task ''c'' [mk_task ''e'' []]]"
    by (simp only: v)
  from i1 h(1,2) have "deleteNestedTask ''b'' tree_abc
      = along [''a''] (filter (\<lambda>t. task_id t \<noteq> ''b'')) tree_abc"
    by blast
  then have w3: "deleteNestedTask ''b'' tree_abc
      = [mk_task ''a'' [], mk_task ''c'' [mk_task ''e'' []]]"
    by (simp only: v)
  from i2 h(3) have w4: "updateNestedTask ''z'' (only_completed True) tree_abc = tree_abc"
    "deleteNestedTask ''z'' tree_abc = tree_abc"
    by blast+
  from i1 h(4,5)
  have "resolve (along [''a''] (\<lambda>cs. cs @ [mk_task ''n'' []]) tree_abc) [''c'', ''e'']
      = resolve tree_abc [''c'', ''e'']"
    by blast
  then have w5:
    "resolve (along [''a''] (\<lambda>cs. cs @ [mk_task ''n'' []]) tree_abc) [''c'', ''e'']
      = Some (mk_task ''e'' [])"
    by (simp only: v)
  from i2 h(6)
  have "map_option attrs (resolve (along [''a''] (\<lambda>cs. cs @ [mk_task ''n'' []]) tree_abc)
      [''a'']) = map_option attrs (resolve tree_abc [''a''])"
    by blast
  then have w6:
    "map_option attrs (resolve (along [''a''] (\<lambda>cs. cs @ [mk_task ''n'' []]) tree_abc)
      [''a'']) = Some (attrs (mk_task ''a'' []))"
    by (simp only: v)
  from i1 h(7,8) have w7: "deleteTaskFromItem ''b'' items_dup ! 0 = items_dup ! 0"
    by blast
  from h x(1) u(1) a b c e w1 w2 w3 w4 w5 w6 w7 show ?thesis
    by blast
qed

theorem C2_frame_counterexample:
  "getTaskByPath_tasks tree_dup [''a'', ''dup''] = Some (mk_task ''dup'' [])
   \<and> tree_dup ! 1 = mk_task ''c'' [mk_task ''dup'' []]
   \<and> updateNestedTask ''dup'' (only_completed True) tree_dup
       = [mk_task ''a'' [patchTask (only_completed True) (mk_task ''dup'' [])],
          mk_task ''c'' [patchTask (only_completed True) (mk_task ''dup'' [])]]
   \<and> updateNestedTask ''dup'' (only_completed True) tree_dup ! 1 \<noteq> tree_dup ! 1
   \<and> patchTask (only_completed True) (mk_task ''dup'' []) \<noteq> mk_task ''dup'' []"
  by (simp add: getTaskByPath_tasks_resolve tree_dup_def mk_task_def patchTask_def
        only_completed_def spread_def patch_or_def)

text \<open>
  C4 (as amended). \<open>addTask\<close> on a non-empty path that fails to resolve raises no
  error: on a tree with unique ids it returns the tree unchanged, creating no node, and
  the operation succeeds (for every path, whenever the project exists) and stores the
  normalised tree. \<open>toggleTaskCompletion\<close> on a path that fails to resolve throws
  \<open>'Task not found'\<close>.
\<close>

theorem C4_unresolved_add:
  "(p \<noteq> [] \<longrightarrow> distinct (ids ts) \<longrightarrow> getTaskByPath_tasks ts p = None \<longrightarrow>
      addTask_tasks new ts p = ts)
   \<and> (stored_tasks s projectId = Some ts \<longrightarrow> fst (addTask projectId p td uuid s) = Inr ())
   \<and> (stored_tasks s projectId = Some ts \<longrightarrow> p \<noteq> [] \<longrightarrow> distinct (ids ts) \<longrightarrow>
        fst (getTaskByPath projectId p s) = None \<longrightarrow>
        stored_tasks (snd (addTask projectId p td uuid s)) projectId = Some (cleanTasks ts))
   \<and> (fst (getTaskByPath projectId p s) = None \<longrightarrow>
        fst (toggleTaskCompletion projectId p s) = Inl ''Task not found'')"
proof -
  have tree: "addTask_tasks new' ts p = ts"
    if "p \<noteq> []" "distinct (ids ts)" "getTaskByPath_tasks ts p = None" for new'
    using that
    by (simp add: addTask_tasks_def updateNestedTasks_along along_unresolved
          getTaskByPath_tasks_resolve)
  show ?thesis
    using tree addTask_stored [of s projectId ts p td uuid]
      toggleTaskCompletion_unresolved [of projectId p s]
    by (auto simp: getTaskByPath_stored)
qed

theorem C4_unresolved_add_witness:
  "[''z''] \<noteq> [] \<and> distinct (ids tree_ab) \<and> getTaskByPath_tasks tree_ab [''z''] = None
   \<and> addTask_tasks (newTask td_X ''u-1'') tree_ab [''z''] = tree_ab
   \<and> stored_tasks (store_of tree_ab) ''p1'' = Some tree_ab
   \<and> fst (getTaskByPath ''p1'' [''z''] (store_of tree_ab)) = None
   \<and> fst (addTask ''p1'' [''z''] td_X ''u-1'' (store_of tree_ab)) = Inr ()
   \<and> stored_tasks (snd (addTask ''p1'' [''z''] td_X ''u-1'' (store_of tree_ab))) ''p1''
       = Some (cleanTasks tree_ab)
   \<and> fst (toggleTaskCompletion ''p1'' [''z''] (store_of tree_ab)) = Inl ''Task not found''"
proof -
  have h: "distinct (ids tree_ab)" "getTaskByPath_tasks tree_ab [''z''] = None"
    "fst (getTaskByPath ''p1'' [''z''] (store_of tree_ab)) = None"
    by (simp_all add: getTaskByPath_stored getTaskByPath_tasks_resolve tree_ab_def mk_task_def)
  with C4_unresolved_add [of "[''z'']" tree_ab "newTask td_X ''u-1''" "store_of tree_ab"
      "''p1''" td_X "''u-1''"]
  show ?thesis by simp
qed

theorem C4_unresolved_add_counterexample:
  "fst (getTaskByPath ''p1'' [''z''] (store_of tree_ab)) = None
   \<and> fst (addTask ''p1'' [''z''] td_X ''u-1'' (store_of tree_ab)) = Inr ()
   \<and> addTask_tasks (newTask td_X ''u-1'') tree_ab [''z''] = tree_ab"
proof -
  have "fst (addTask ''p1'' [''z''] td_X ''u-1'' (store_of tree_ab)) = Inr ()"
    using addTask_stored [of "store_of tree_ab" "''p1''" tree_ab] by simp
  then show ?thesis
    by (simp add: getTaskByPath_stored getTaskByPath_tasks_resolve addTask_tasks_def
          tree_ab_def mk_task_def)
qed

subsection \<open>Reading back an inserted task\<close>

lemma newTask_fields:
  "newTask td uuid =
     Task \<lparr> t_id = uuid, t_name = td_name td, t_description = td_description td,
            t_hours = td_hours td, t_costPerHour = td_costPerHour td,
            t_assignedTo = td_assignedTo td, t_deadline = td_deadline td,
            t_completed = False, t_projectId = td_projectId td \<rparr> []"
  by (simp add: newTask_def)

lemma cleanTasks_append: "cleanTasks (xs @ ys) = cleanTasks xs @ cleanTasks ys"
  by (simp add: cleanTasks_spec)

lemma clean_newTask:
  "substDefaults (otherChanges (newTask td uuid)) =
     Task \<lparr> t_id = uuid, t_name = td_name td, t_description = td_description td,
                 t_hours = Some (num_or (td_hours td) (Num 0)),
                 t_costPerHour = Some (num_or (td_costPerHour td) (Num 0)),
                 t_assignedTo = Some (case td_assignedTo td of None \<Rightarrow> [] | Some us \<Rightarrow> us),
                 t_deadline = deadline_or_null (td_deadline td),
                 t_completed = False, t_projectId = None \<rparr> []"
  by (simp add: newTask_def num_or_zeroed deadline_or_null_def
        split: option.splits jsopt.splits)

lemma getTaskByPath_Some_stored:
  "fst (getTaskByPath k p s) = Some n \<Longrightarrow>
   \<exists>ts. stored_tasks s k = Some ts \<and> getTaskByPath_tasks ts p = Some n"
  by (auto simp: getTaskByPath_stored split: option.splits)

text \<open>
  Through the store the node read back after \<open>addTask\<close> is the new task as
  \<open>updateProject\<close> has normalised it.
\<close>

lemma addTask_then_getTaskByPath:
  assumes "stored_tasks s projectId = Some ts"
    and "getTaskByPath_tasks ts p = Some parent"
    and "uuid \<notin> task_id ` set (children parent)"
  shows "fst (getTaskByPath projectId (p @ [uuid]) (snd (addTask projectId p td uuid s)))
      = Some (substDefaults (otherChanges (newTask td uuid)))"
    and "map_option children
        (fst (getTaskByPath projectId p (snd (addTask projectId p td uuid s))))
      = Some (cleanTasks (children parent) @ [substDefaults (otherChanges (newTask td uuid))])"
proof -
  from assms(2) have ne: "p \<noteq> []" by (auto simp: getTaskByPath_tasks_def)
  have idn: "task_id (newTask td uuid) = uuid" by (simp add: newTask_def)
  from add_resolve [OF _ assms(3) idn, of ts p] assms(2)
  have r: "resolve (addTask_tasks (newTask td uuid) ts p) (p @ [uuid]) = Some (newTask td uuid)"
    "resolve (addTask_tasks (newTask td uuid) ts p) p
      = Some (Task (attrs parent) (children parent @ [newTask td uuid]))"
    using ne by (simp_all add: getTaskByPath_tasks_resolve addTask_tasks_def)
  from r(1) addTask_stored [OF assms(1), of p td uuid]
  show "fst (getTaskByPath projectId (p @ [uuid]) (snd (addTask projectId p td uuid s)))
      = Some (substDefaults (otherChanges (newTask td uuid)))"
    by (simp add: getTaskByPath_stored getTaskByPath_tasks_resolve resolve_cleanTasks)
  have cn: "cleanTasks [newTask td uuid] = [substDefaults (otherChanges (newTask td uuid))]"
    by (simp add: cleanTasks_spec)
  from addTask_stored [OF assms(1), of p td uuid]
  have "fst (getTaskByPath projectId p (snd (addTask projectId p td uuid s)))
      = resolve (cleanTasks (addTask_tasks (newTask td uuid) ts p)) p"
    by (simp add: getTaskByPath_stored getTaskByPath_tasks_resolve)
  then have "fst (getTaskByPath projectId p (snd (addTask projectId p td uuid s)))
      = Some (substDefaults (otherChanges
          (Task (attrs parent) (children parent @ [newTask td uuid]))))"
    by (simp only: resolve_cleanTasks r(2) option.map comp_apply)
  then have "map_option children
        (fst (getTaskByPath projectId p (snd (addTask projectId p td uuid s))))
      = Some (cleanTasks (children (Task (attrs parent) (children parent @ [newTask td uuid]))))"
    by (simp only: option.map clean_one_children)
  then show "map_option children
        (fst (getTaskByPath projectId p (snd (addTask projectId p td uuid s))))
      = Some (cleanTasks (children parent) @ [substDefaults (otherChanges (newTask td uuid))])"
    by (simp only: task.sel cleanTasks_append cn)
qed

lemma addTask_root_then_getTaskByPath:
  assumes "stored_tasks s projectId = Some ts"
    and "uuid \<notin> task_id ` set ts"
  shows "fst (getTaskByPath projectId [uuid] (snd (addTask projectId [] td uuid s)))
      = Some (substDefaults (otherChanges (newTask td uuid)))"
    and "stored_tasks (snd (addTask projectId [] td uuid s)) projectId
      = Some (cleanTasks ts @ [substDefaults (otherChanges (newTask td uuid))])"
proof -
  from assms(2) have "find (\<lambda>t. task_id t = uuid) ts = None"
    by (auto simp: find_None_iff)
  then have r: "resolve (addTask_tasks (newTask td uuid) ts []) [uuid] = Some (newTask td uuid)"
    by (simp add: addTask_tasks_def find_append newTask_def)
  from addTask_stored [OF assms(1), of "[]" td uuid]
  have "fst (getTaskByPath projectId [uuid] (snd (addTask projectId [] td uuid s)))
      = resolve (cleanTasks (addTask_tasks (newTask td uuid) ts [])) [uuid]"
    by (simp add: getTaskByPath_stored getTaskByPath_tasks_resolve del: resolve.simps)
  then show "fst (getTaskByPath projectId [uuid] (snd (addTask projectId [] td uuid s)))
      = Some (substDefaults (otherChanges (newTask td uuid)))"
    by (simp only: resolve_cleanTasks r option.map comp_apply)
  have "cleanTasks [newTask td uuid] = [substDefaults (otherChanges (newTask td uuid))]"
    by (simp add: cleanTasks_spec)
  with addTask_stored [OF assms(1), of "[]" td uuid]
  show "stored_tasks (snd (addTask projectId [] td uuid s)) projectId
      = Some (cleanTasks ts @ [substDefaults (otherChanges (newTask td uuid))])"
    by (simp add: addTask_tasks_def cleanTasks_append)
qed

text \<open>
  C5 (as amended). Insert then resolve, through the store: when \<open>getTaskByPath\<close>
  resolves the path \<open>p\<close> to a node and the generated id is not the id of one of
  its children, \<open>addTask\<close> under \<open>p\<close> succeeds, and \<open>getTaskByPath\<close> on
  \<open>p @ [uuid]\<close> then returns the inserted node as \<open>updateProject\<close> normalised
  it: the supplied name and description, \<open>completed = false\<close> and no children; the
  supplied hours and cost, or 0 for a falsy one; the supplied assignment list, or the
  empty list; the supplied deadline, or null for a falsy one; and no \<open>projectId\<close>,
  supplied or not. It is the last child of the node at \<open>p\<close>; with the empty path
  it is the last task of the root list. In the tree that \<open>addTask\<close> builds, before
  \<open>updateProject\<close> normalises it, the new task carries the supplied fields as they
  are.
\<close>

theorem C5_insert_then_resolve:
  "(fst (getTaskByPath projectId p s) = Some parent \<longrightarrow>
    uuid \<notin> task_id ` set (children parent) \<longrightarrow>
      fst (addTask projectId p td uuid s) = Inr ()
      \<and> fst (getTaskByPath projectId (p @ [uuid]) (snd (addTask projectId p td uuid s)))
          = Some (Task \<lparr> t_id = uuid, t_name = td_name td, t_description = td_description td,
                 t_hours = Some (num_or (td_hours td) (Num 0)),
                 t_costPerHour = Some (num_or (td_costPerHour td) (Num 0)),
                 t_assignedTo = Some (case td_assignedTo td of None \<Rightarrow> [] | Some us \<Rightarrow> us),
                 t_deadline = deadline_or_null (td_deadline td),
                 t_completed = False, t_projectId = None \<rparr> [])
      \<and> map_option children
            (fst (getTaskByPath projectId p (snd (addTask projectId p td uuid s))))
          = Some (cleanTasks (children parent) @
              [Task \<lparr> t_id = uuid, t_name = td_name td, t_description = td_description td,
                 t_hours = Some (num_or (td_hours td) (Num 0)),
                 t_costPerHour = Some (num_or (td_costPerHour td) (Num 0)),
                 t_assignedTo = Some (case td_assignedTo td of None \<Rightarrow> [] | Some us \<Rightarrow> us),
                 t_deadline = deadline_or_null (td_deadline td),
                 t_completed = False, t_projectId = None \<rparr> []]))
   \<and> (stored_tasks s projectId = Some ts \<longrightarrow> uuid \<notin> task_id ` set ts \<longrightarrow>
      fst (addTask projectId [] td uuid s) = Inr ()
      \<and> fst (getTaskByPath projectId [uuid] (snd (addTask projectId [] td uuid s)))
          = Some (Task \<lparr> t_id = uuid, t_name = td_name td, t_description = td_description td,
                 t_hours = Some (num_or (td_hours td) (Num 0)),
                 t_costPerHour = Some (num_or (td_costPerHour td) (Num 0)),
                 t_assignedTo = Some (case td_assignedTo td of None \<Rightarrow> [] | Some us \<Rightarrow> us),
                 t_deadline = deadline_or_null (td_deadline td),
                 t_completed = False, t_projectId = None \<rparr> [])
      \<and> stored_tasks (snd (addTask projectId [] td uuid s)) projectId
          = Some (cleanTasks ts @
              [Task \<lparr> t_id = uuid, t_name = td_name td, t_description = td_description td,
                 t_hours = Some (num_or (td_hours td) (Num 0)),
                 t_costPerHour = Some (num_or (td_costPerHour td) (Num 0)),
                 t_assignedTo = Some (case td_assignedTo td of None \<Rightarrow> [] | Some us \<Rightarrow> us),
                 t_deadline = deadline_or_null (td_deadline td),
                 t_completed = False, t_projectId = None \<rparr> []]))
   \<and> (getTaskByPath_tasks ts p = Some parent \<longrightarrow> uuid \<notin> task_id ` set (children parent) \<longrightarrow>
      getTaskByPath_tasks (addTask_tasks (newTask td uuid) ts p) (p @ [uuid])
        = Some (newTask td uuid)
      \<and> getTaskByPath_tasks (addTask_tasks (newTask td uuid) ts p) p
        = Some (Task (attrs parent) (children parent @ [newTask td uuid])))
   \<and> (uuid \<notin> task_id ` set ts \<longrightarrow>
        getTaskByPath_tasks (addTask_tasks (newTask td uuid) ts []) [uuid]
          = Some (newTask td uuid))
   \<and> addTask_tasks (newTask td uuid) ts [] = ts @ [newTask td uuid]
   \<and> newTask td uuid =
       Task \<lparr> t_id = uuid, t_name = td_name td, t_description = td_description td,
              t_hours = td_hours td, t_costPerHour = td_costPerHour td,
              t_assignedTo = td_assignedTo td, t_deadline = td_deadline td,
              t_completed = False, t_projectId = td_projectId td \<rparr> []"
proof (intro conjI impI)
  assume g: "fst (getTaskByPath projectId p s) = Some parent"
    and fresh: "uuid \<notin> task_id ` set (children parent)"
  from getTaskByPath_Some_stored [OF g] obtain ts' where st: "stored_tasks s projectId = Some ts'"
    and r: "getTaskByPath_tasks ts' p = Some parent"
    by blast
  from addTask_stored [OF st, of p td uuid]
  show "fst (addTask projectId p td uuid s) = Inr ()"
    by blast
  from addTask_then_getTaskByPath(1) [OF st r fresh, of td]
  show "fst (getTaskByPath projectId (p @ [uuid]) (snd (addTask projectId p td uuid s)))
          = Some (Task \<lparr> t_id = uuid, t_name = td_name td, t_description = td_description td,
                 t_hours = Some (num_or (td_hours td) (Num 0)),
                 t_costPerHour = Some (num_or (td_costPerHour td) (Num 0)),
                 t_assignedTo = Some (case td_assignedTo td of None \<Rightarrow> [] | Some us \<Rightarrow> us),
                 t_deadline = deadline_or_null (td_deadline td),
                 t_completed = False, t_projectId = None \<rparr> [])"
    by (simp only: clean_newTask)
  from addTask_then_getTaskByPath(2) [OF st r fresh, of td]
  show "map_option children
            (fst (getTaskByPath projectId p (snd (addTask projectId p td uuid s))))
          = Some (cleanTasks (children parent) @
              [Task \<lparr> t_id = uuid, t_name = td_name td, t_description = td_description td,
                 t_hours = Some (num_or (td_hours td) (Num 0)),
                 t_costPerHour = Some (num_or (td_costPerHour td) (Num 0)),
                 t_assignedTo = Some (case td_assignedTo td of None \<Rightarrow> [] | Some us \<Rightarrow> us),
                 t_deadline = deadline_or_null (td_deadline td),
                 t_completed = False, t_projectId = None \<rparr> []])"
    by (simp only: clean_newTask)
next
  assume st: "stored_tasks s projectId = Some ts"
    and fresh: "uuid \<notin> task_id ` set ts"
  from addTask_stored [OF st, of "[]" td uuid]
  show "fst (addTask projectId [] td uuid s) = Inr ()"
    by blast
  from addTask_root_then_getTaskByPath(1) [OF st fresh, of td]
  show "fst (getTaskByPath projectId [uuid] (snd (addTask projectId [] td uuid s)))
          = Some (Task \<lparr> t_id = uuid, t_name = td_name td, t_description = td_description td,
                 t_hours = Some (num_or (td_hours td) (Num 0)),
                 t_costPerHour = Some (num_or (td_costPerHour td) (Num 0)),
                 t_assignedTo = Some (case td_assignedTo td of None \<Rightarrow> [] | Some us \<Rightarrow> us),
                 t_deadline = deadline_or_null (td_deadline td),
                 t_completed = False, t_projectId = None \<rparr> [])"
    by (simp only: clean_newTask)
  from addTask_root_then_getTaskByPath(2) [OF st fresh, of td]
  show "stored_tasks (snd (addTask projectId [] td uuid s)) projectId
          = Some (cleanTasks ts @
              [Task \<lparr> t_id = uuid, t_name = td_name td, t_description = td_description td,
                 t_hours = Some (num_or (td_hours td) (Num 0)),
                 t_costPerHour = Some (num_or (td_costPerHour td) (Num 0)),
                 t_assignedTo = Some (case td_assignedTo td of None \<Rightarrow> [] | Some us \<Rightarrow> us),
                 t_deadline = deadline_or_null (td_deadline td),
                 t_completed = False, t_projectId = None \<rparr> []])"
    by (simp only: clean_newTask)
next
  assume r: "getTaskByPath_tasks ts p = Some parent"
    and fresh: "uuid \<notin> task_id ` set (children parent)"
  from r have ne: "p \<noteq> []" by (auto simp: getTaskByPath_tasks_def)
  have idn: "task_id (newTask td uuid) = uuid" by (simp add: newTask_def)
  from add_resolve [OF _ fresh idn, of ts p] r ne
  show "getTaskByPath_tasks (addTask_tasks (newTask td uuid) ts p) (p @ [uuid])
        = Some (newTask td uuid)"
    and "getTaskByPath_tasks (addTask_tasks (newTask td uuid) ts p) p
        = Some (Task (attrs parent) (children parent @ [newTask td uuid]))"
    by (simp_all add: getTaskByPath_tasks_resolve addTask_tasks_def)
next
  assume "uuid \<notin> task_id ` set ts"
  then have "find (\<lambda>t. task_id t = uuid) ts = None"
    by (auto simp: find_None_iff)
  then show "getTaskByPath_tasks (addTask_tasks (newTask td uuid) ts []) [uuid]
      = Some (newTask td uuid)"
    by (simp add: getTaskByPath_tasks_resolve addTask_tasks_def find_append newTask_def)
next
  show "addTask_tasks (newTask td uuid) ts [] = ts @ [newTask td uuid]"
    by (simp add: addTask_tasks_def)
next
  show "newTask td uuid =
       Task \<lparr> t_id = uuid, t_name = td_name td, t_description = td_description td,
              t_hours = td_hours td, t_costPerHour = td_costPerHour td,
              t_assignedTo = td_assignedTo td, t_deadline = td_deadline td,
              t_completed = False, t_projectId = td_projectId td \<rparr> []"
    by (rule newTask_fields)
qed

theorem C5_insert_then_resolve_witness:
  "fst (getTaskByPath ''p1'' [''a'', ''b''] (store_of tree_ab)) = Some (mk_task ''b'' [])
   \<and> ''u-1'' \<notin> task_id ` set (children (mk_task ''b'' []))
   \<and> fst (addTask ''p1'' [''a'', ''b''] td_X ''u-1'' (store_of tree_ab)) = Inr ()
   \<and> fst (getTaskByPath ''p1'' [''a'', ''b'', ''u-1'']
          (snd (addTask ''p1'' [''a'', ''b''] td_X ''u-1'' (store_of tree_ab))))
       = Some (Task \<lparr> t_id = ''u-1'', t_name = ''X'', t_description = [],
                 t_hours = Some (Num 0), t_costPerHour = Some (Num 0),
                 t_assignedTo = Some [], t_deadline = Null,
                 t_completed = False, t_projectId = None \<rparr> [])
   \<and> map_option children (fst (getTaskByPath ''p1'' [''a'', ''b'']
          (snd (addTask ''p1'' [''a'', ''b''] td_X ''u-1'' (store_of tree_ab)))))
       = Some [Task \<lparr> t_id = ''u-1'', t_name = ''X'', t_description = [],
                 t_hours = Some (Num 0), t_costPerHour = Some (Num 0),
                 t_assignedTo = Some [], t_deadline = Null,
                 t_completed = False, t_projectId = None \<rparr> []]
   \<and> stored_tasks (store_of tree_ab) ''p1'' = Some tree_ab
   \<and> ''u-1'' \<notin> task_id ` set tree_ab
   \<and> fst (getTaskByPath ''p1'' [''u-1'']
          (snd (addTask ''p1'' [] td_X ''u-1'' (store_of tree_ab))))
       = Some (Task \<lparr> t_id = ''u-1'', t_name = ''X'', t_description = [],
                 t_hours = Some (Num 0), t_costPerHour = Some (Num 0),
                 t_assignedTo = Some [], t_deadline = Null,
                 t_completed = False, t_projectId = None \<rparr> [])
   \<and> getTaskByPath_tasks tree_ab [''a'', ''b''] = Some (mk_task ''b'' [])
   \<and> addTask_tasks (newTask td_X ''u-1'') tree_ab [''a'', ''b'']
       = [mk_task ''a'' [mk_task ''b'' [newTask td_X ''u-1'']]]
   \<and> getTaskByPath_tasks [mk_task ''a'' [mk_task ''b'' [newTask td_X ''u-1'']]]
         [''a'', ''b'', ''u-1'']
       = Some (newTask td_X ''u-1'')
   \<and> getTaskByPath_tasks (tree_ab @ [newTask td_X ''u-1'']) [''u-1'']
       = Some (newTask td_X ''u-1'')
   \<and> newTask td_X ''u-1'' =
       Task \<lparr> t_id = ''u-1'', t_name = ''X'', t_description = [], t_hours = None,
              t_costPerHour = None, t_assignedTo = None, t_deadline = Undefined,
              t_completed = False, t_projectId = None \<rparr> []"
proof -
  have h: "getTaskByPath_tasks tree_ab [''a'', ''b''] = Some (mk_task ''b'' [])"
    by (simp add: getTaskByPath_tasks_resolve tree_ab_def mk_task_def)
  have st: "stored_tasks (store_of tree_ab) ''p1'' = Some tree_ab"
    by simp
  have g: "fst (getTaskByPath ''p1'' [''a'', ''b''] (store_of tree_ab)) = Some (mk_task ''b'' [])"
    by (simp only: getTaskByPath_stored st option.case h)
  have f: "''u-1'' \<notin> task_id ` set (children (mk_task ''b'' []))"
    "''u-1'' \<notin> task_id ` set tree_ab"
    by (simp_all add: tree_ab_def mk_task_def)
  have a: "addTask_tasks (newTask td_X ''u-1'') tree_ab [''a'', ''b'']
       = [mk_task ''a'' [mk_task ''b'' [newTask td_X ''u-1'']]]"
    by (simp add: addTask_tasks_def tree_ab_def mk_task_def)
  have t: "td_name td_X = ''X''" "td_description td_X = []" "td_hours td_X = None"
    "td_costPerHour td_X = None" "td_assignedTo td_X = None" "td_deadline td_X = Undefined"
    "td_projectId td_X = None"
    by (simp_all add: td_X_def)
  have c: "Task \<lparr> t_id = ''u-1'', t_name = td_name td_X, t_description = td_description td_X,
                 t_hours = Some (num_or (td_hours td_X) (Num 0)),
                 t_costPerHour = Some (num_or (td_costPerHour td_X) (Num 0)),
                 t_assignedTo = Some (case td_assignedTo td_X of None \<Rightarrow> [] | Some us \<Rightarrow> us),
                 t_deadline = deadline_or_null (td_deadline td_X),
                 t_completed = False, t_projectId = None \<rparr> [] = Task \<lparr> t_id = ''u-1'', t_name = ''X'', t_description = [],
                 t_hours = Some (Num 0), t_costPerHour = Some (Num 0),
                 t_assignedTo = Some [], t_deadline = Null,
                 t_completed = False, t_projectId = None \<rparr> []"
    by (simp add: t num_or_def deadline_or_null_def)
  have k: "cleanTasks (children (mk_task ''b'' [])) = []"
    by (simp add: mk_task_def)
  note inst = C5_insert_then_resolve [where projectId = "''p1''" and p = "[''a'', ''b'']"
      and s = "store_of tree_ab" and parent = "mk_task ''b'' []" and uuid = "''u-1''"
      and td = td_X and ts = tree_ab]
  from inst g f
  have s1: "fst (addTask ''p1'' [''a'', ''b''] td_X ''u-1'' (store_of tree_ab)) = Inr ()"
    by blast
  from inst g f
  have "fst (getTaskByPath ''p1'' ([''a'', ''b''] @ [''u-1''])
          (snd (addTask ''p1'' [''a'', ''b''] td_X ''u-1'' (store_of tree_ab))))
       = Some (Task \<lparr> t_id = ''u-1'', t_name = td_name td_X, t_description = td_description td_X,
                 t_hours = Some (num_or (td_hours td_X) (Num 0)),
                 t_costPerHour = Some (num_or (td_costPerHour td_X) (Num 0)),
                 t_assignedTo = Some (case td_assignedTo td_X of None \<Rightarrow> [] | Some us \<Rightarrow> us),
                 t_deadline = deadline_or_null (td_deadline td_X),
                 t_completed = False, t_projectId = None \<rparr> [])"
    by blast
  then have s2: "fst (getTaskByPath ''p1'' [''a'', ''b'', ''u-1'']
          (snd (addTask ''p1'' [''a'', ''b''] td_X ''u-1'' (store_of tree_ab))))
       = Some (Task \<lparr> t_id = ''u-1'', t_name = ''X'', t_description = [],
                 t_hours = Some (Num 0), t_costPerHour = Some (Num 0),
                 t_assignedTo = Some [], t_deadline = Null,
                 t_completed = False, t_projectId = None \<rparr> [])"
    by (simp only: c append.simps)
  from inst g f
  have "map_option children (fst (getTaskByPath ''p1'' [''a'', ''b'']
          (snd (addTask ''p1'' [''a'', ''b''] td_X ''u-1'' (store_of tree_ab)))))
       = Some (cleanTasks (children (mk_task ''b'' [])) @
           [Task \<lparr> t_id = ''u-1'', t_name = td_name td_X, t_description = td_description td_X,
                 t_hours = Some (num_or (td_hours td_X) (Num 0)),
                 t_costPerHour = Some (num_or (td_costPerHour td_X) (Num 0)),
                 t_assignedTo = Some (case td_assignedTo td_X of None \<Rightarrow> [] | Some us \<Rightarrow> us),
                 t_deadline = deadline_or_null (td_deadline td_X),
                 t_completed = False, t_projectId = None \<rparr> []])"
    by blast
  then have s3: "map_option children (fst (getTaskByPath ''p1'' [''a'', ''b'']
          (snd (addTask ''p1'' [''a'', ''b''] td_X ''u-1'' (store_of tree_ab)))))
       = Some [Task \<lparr> t_id = ''u-1'', t_name = ''X'', t_description = [],
                 t_hours = Some (Num 0), t_costPerHour = Some (Num 0),
                 t_assignedTo = Some [], t_deadline = Null,
                 t_completed = False, t_projectId = None \<rparr> []]"
    by (simp only: c k append.simps)
  from inst st f
  have "fst (getTaskByPath ''p1'' [''u-1'']
          (snd (addTask ''p1'' [] td_X ''u-1'' (store_of tree_ab))))
       = Some (Task \<lparr> t_id = ''u-1'', t_name = td_name td_X, t_description = td_description td_X,
                 t_hours = Some (num_or (td_hours td_X) (Num 0)),
                 t_costPerHour = Some (num_or (td_costPerHour td_X) (Num 0)),
                 t_assignedTo = Some (case td_assignedTo td_X of None \<Rightarrow> [] | Some us \<Rightarrow> us),
                 t_deadline = deadline_or_null (td_deadline td_X),
                 t_completed = False, t_projectId = None \<rparr> [])"
    by blast
  then have s4: "fst (getTaskByPath ''p1'' [''u-1'']
          (snd (addTask ''p1'' [] td_X ''u-1'' (store_of tree_ab))))
       = Some (Task \<lparr> t_id = ''u-1'', t_name = ''X'', t_description = [],
                 t_hours = Some (Num 0), t_costPerHour = Some (Num 0),
                 t_assignedTo = Some [], t_deadline = Null,
                 t_completed = False, t_projectId = None \<rparr> [])"
    by (simp only: c)
  from inst h f
  have r1: "getTaskByPath_tasks (addTask_tasks (newTask td_X ''u-1'') tree_ab [''a'', ''b''])
      ([''a'', ''b''] @ [''u-1'']) = Some (newTask td_X ''u-1'')"
    by blast
  from inst f
  have r2: "getTaskByPath_tasks (addTask_tasks (newTask td_X ''u-1'') tree_ab []) [''u-1'']
      = Some (newTask td_X ''u-1'')"
    by blast
  from inst
  have r3: "addTask_tasks (newTask td_X ''u-1'') tree_ab [] = tree_ab @ [newTask td_X ''u-1'']"
    by blast
  from inst
  have r4: "newTask td_X ''u-1'' =
       Task \<lparr> t_id = ''u-1'', t_name = td_name td_X, t_description = td_description td_X,
              t_hours = td_hours td_X, t_costPerHour = td_costPerHour td_X,
              t_assignedTo = td_assignedTo td_X, t_deadline = td_deadline td_X,
              t_completed = False, t_projectId = td_projectId td_X \<rparr> []"
    by blast
  from r1 have r1': "getTaskByPath_tasks [mk_task ''a'' [mk_task ''b'' [newTask td_X ''u-1'']]]
      [''a'', ''b'', ''u-1''] = Some (newTask td_X ''u-1'')"
    by (simp only: a append.simps)
  from r2 have r2': "getTaskByPath_tasks (tree_ab @ [newTask td_X ''u-1'']) [''u-1'']
      = Some (newTask td_X ''u-1'')"
    by (simp only: r3)
  from r4 have r4': "newTask td_X ''u-1'' =
       Task \<lparr> t_id = ''u-1'', t_name = ''X'', t_description = [], t_hours = None,
              t_costPerHour = None, t_assignedTo = None, t_deadline = Undefined,
              t_completed = False, t_projectId = None \<rparr> []"
    by (simp only: t)
  from g st h f a s1 s2 s3 s4 r1' r2' r4' show ?thesis by blast
qed

text \<open>
  A task supplied with an empty deadline and a \<open>projectId\<close> is read back with a
  null deadline and without the \<open>projectId\<close>: the node returned does not carry
  these two supplied fields.
\<close>

theorem C5_insert_then_resolve_counterexample:
  "fst (getTaskByPath ''p1'' [''a''] (store_of tree_ab)) = Some (mk_task ''a'' [mk_task ''b'' []])
   \<and> td_deadline td_P = Val []
   \<and> td_projectId td_P = Some ''p9''
   \<and> fst (addTask ''p1'' [''a''] td_P ''u-1'' (store_of tree_ab)) = Inr ()
   \<and> fst (getTaskByPath ''p1'' [''a'', ''u-1'']
          (snd (addTask ''p1'' [''a''] td_P ''u-1'' (store_of tree_ab))))
       = Some (Task \<lparr> t_id = ''u-1'', t_name = ''X'', t_description = [],
                 t_hours = Some (Num 0), t_costPerHour = Some (Num 0),
                 t_assignedTo = Some [], t_deadline = Null,
                 t_completed = False, t_projectId = None \<rparr> [])"
proof -
  have st: "stored_tasks (store_of tree_ab) ''p1'' = Some tree_ab"
    by simp
  have h: "getTaskByPath_tasks tree_ab [''a''] = Some (mk_task ''a'' [mk_task ''b'' []])"
    by (simp add: getTaskByPath_tasks_resolve tree_ab_def mk_task_def)
  have f: "''u-1'' \<notin> task_id ` set (children (mk_task ''a'' [mk_task ''b'' []]))"
    by (simp add: mk_task_def)
  have g: "fst (getTaskByPath ''p1'' [''a''] (store_of tree_ab))
      = Some (mk_task ''a'' [mk_task ''b'' []])"
    by (simp only: getTaskByPath_stored st option.case h)
  have c: "substDefaults (otherChanges (newTask td_P ''u-1'')) = Task \<lparr> t_id = ''u-1'', t_name = ''X'', t_description = [],
                 t_hours = Some (Num 0), t_costPerHour = Some (Num 0),
                 t_assignedTo = Some [], t_deadline = Null,
                 t_completed = False, t_projectId = None \<rparr> []"
    by (simp add: clean_newTask td_P_def num_or_def deadline_or_null_def)
  from addTask_then_getTaskByPath(1) [OF st h f, of td_P]
  have r: "fst (getTaskByPath ''p1'' [''a'', ''u-1'']
          (snd (addTask ''p1'' [''a''] td_P ''u-1'' (store_of tree_ab))))
       = Some (Task \<lparr> t_id = ''u-1'', t_name = ''X'', t_description = [],
                 t_hours = Some (Num 0), t_costPerHour = Some (Num 0),
                 t_assignedTo = Some [], t_deadline = Null,
                 t_completed = False, t_projectId = None \<rparr> [])"
    by (simp only: c append.simps)
  from addTask_stored [OF st, of "[''a'']" td_P "''u-1''"]
  have e: "fst (addTask ''p1'' [''a''] td_P ''u-1'' (store_of tree_ab)) = Inr ()"
    by blast
  have "td_deadline td_P = Val []" "td_projectId td_P = Some ''p9''"
    by (simp_all add: td_P_def)
  with g e r show ?thesis by blast
qed

section \<open>Patches\<close>

lemma patchTask_only_completed:
  "patchTask (only_completed c) t = Task ((attrs t)\<lparr> t_completed := c \<rparr>) (children t)"
  by (simp add: patchTask_def only_completed_def spread_def patch_or_def)

lemma patchTask_empty_name:
  "d_name d = Some [] \<Longrightarrow> t_name (attrs (patchTask d t)) = t_name (attrs t)"
  by (simp add: patchTask_def patch_or_def str_or_def)

lemma patchTask_empty_description:
  "d_description d = Some [] \<Longrightarrow> t_description (attrs (patchTask d t)) = t_description (attrs t)"
  by (simp add: patchTask_def patch_or_def str_or_def)

lemma item_at_Nil [simp]: "item_at [] ix = None"
  by (induction "[] :: item list" ix rule: item_at.induct) simp_all

lemma patchItem_kept_subTasks:
  "ip_subTasks d = None \<Longrightarrow> subTasks (patchItem d t) = subTasks t"
  by (simp add: patchItem_def spread_def)

lemma updateTaskInItem_at:
  "item_at ts ix = Some n \<Longrightarrow> tid \<notin> set (item_ancestor_ids ts ix) \<Longrightarrow>
   item_at (updateTaskInItem tid d ts) ix =
     Some (if item_id n = tid then patchItem d n
           else if subTasks n \<noteq> [] then Item (iattrs n) (updateTaskInItem tid d (subTasks n))
           else n)"
proof (induction ts ix rule: item_at.induct)
  case (1 ts)
  then show ?case by simp
next
  case (2 ts k)
  then show ?case by (auto simp: updateTaskInItem_nth split: if_splits)
next
  case (3 ts k l ix)
  from "3.prems"(1) have k: "k < length ts"
    and sub: "item_at (subTasks (ts ! k)) (l # ix) = Some n"
    by (simp_all split: if_splits)
  from "3.prems"(2) k have nk: "item_id (ts ! k) \<noteq> tid"
    and anc: "tid \<notin> set (item_ancestor_ids (subTasks (ts ! k)) (l # ix))"
    by auto
  from sub have ne: "subTasks (ts ! k) \<noteq> []" by auto
  with k nk "3.IH" [OF k sub anc] show ?case by (simp add: updateTaskInItem_nth)
qed

lemma updateTaskInItem_at_kept:
  "item_at ts ix = Some n \<Longrightarrow> ip_subTasks d = None \<Longrightarrow>
   item_at (updateTaskInItem tid d ts) ix =
     Some (if tid \<in> set (item_ancestor_ids ts ix) then n
           else if item_id n = tid then patchItem d n
           else if subTasks n \<noteq> [] then Item (iattrs n) (updateTaskInItem tid d (subTasks n))
           else n)"
proof (induction ts ix rule: item_at.induct)
  case (1 ts)
  then show ?case by simp
next
  case (2 ts k)
  then show ?case by (auto simp: updateTaskInItem_nth split: if_splits)
next
  case (3 ts k l ix)
  from "3.prems"(1) have k: "k < length ts"
    and sub: "item_at (subTasks (ts ! k)) (l # ix) = Some n"
    by (simp_all split: if_splits)
  from sub have ne: "subTasks (ts ! k) \<noteq> []" by auto
  show ?case
  proof (cases "item_id (ts ! k) = tid")
    case True
    with k sub "3.prems"(2) show ?thesis
      by (simp add: updateTaskInItem_nth patchItem_kept_subTasks)
  next
    case False
    with k ne "3.IH" [OF k sub "3.prems"(2)] show ?thesis
      by (simp add: updateTaskInItem_nth)
  qed
qed

lemma patchItem_only_completed:
  "patchItem (item_only_completed c) t = Item ((iattrs t)\<lparr> i_completed := c \<rparr>) (subTasks t)"
  by (simp add: patchItem_def item_only_completed_def spread_def)

text \<open>
  C7 (as amended). After a patch \<open>{ completed: c }\<close> addressed to the id of a node,
  the node at the same position has the name, the description and the children it had
  before. When none of its ancestors has the node's id, it is the node with
  \<open>completed = c\<close> and every other field as before. Both hold in both stores.
\<close>

theorem C7_patch_completed:
  "(node_at ts ix = Some n \<longrightarrow>
      map_option (\<lambda>t. (t_name (attrs t), t_description (attrs t), children t))
          (node_at (updateNestedTask (task_id n) (only_completed c) ts) ix)
        = Some (t_name (attrs n), t_description (attrs n), children n)
      \<and> (task_id n \<notin> set (ancestor_ids ts ix) \<longrightarrow>
           node_at (updateNestedTask (task_id n) (only_completed c) ts) ix
             = Some (Task ((attrs n)\<lparr> t_completed := c \<rparr>) (children n))))
   \<and> (item_at items ix = Some m \<longrightarrow>
        map_option (\<lambda>t. (i_name (iattrs t), i_description (iattrs t), subTasks t))
            (item_at (updateTaskInItem (item_id m) (item_only_completed c) items) ix)
          = Some (i_name (iattrs m), i_description (iattrs m), subTasks m)
        \<and> (item_id m \<notin> set (item_ancestor_ids items ix) \<longrightarrow>
             item_at (updateTaskInItem (item_id m) (item_only_completed c) items) ix
               = Some (Item ((iattrs m)\<lparr> i_completed := c \<rparr>) (subTasks m))))"
proof -
  have k: "ip_subTasks (item_only_completed c) = None"
    by (simp add: item_only_completed_def)
  show ?thesis
    using updateNestedTask_at [of ts ix n "task_id n" "only_completed c"]
      updateTaskInItem_at_kept [of items ix m "item_only_completed c" "item_id m", OF _ k]
    by (simp add: patchTask_only_completed patchItem_only_completed)
qed

theorem C7_patch_completed_witness:
  "node_at tree_ab [0, 0] = Some (mk_task ''b'' [])
   \<and> task_id (mk_task ''b'' []) \<notin> set (ancestor_ids tree_ab [0, 0])
   \<and> node_at (updateNestedTask ''b'' (only_completed True) tree_ab) [0, 0]
       = Some (Task ((attrs (mk_task ''b'' []))\<lparr> t_completed := True \<rparr>) [])
   \<and> map_option (\<lambda>t. (t_name (attrs t), t_description (attrs t), children t))
         (node_at (updateNestedTask ''b'' (only_completed True) tree_ab) [0, 0])
       = Some (''b'', [], [])
   \<and> item_at items_ab [0, 0] = Some (mk_item ''b'' [])
   \<and> item_id (mk_item ''b'' []) \<notin> set (item_ancestor_ids items_ab [0, 0])
   \<and> item_at (updateTaskInItem ''b'' (item_only_completed True) items_ab) [0, 0]
       = Some (Item ((iattrs (mk_item ''b'' []))\<lparr> i_completed := True \<rparr>) [])"
proof -
  have h: "node_at tree_ab [0, 0] = Some (mk_task ''b'' [])"
    "task_id (mk_task ''b'' []) \<notin> set (ancestor_ids tree_ab [0, 0])"
    "item_at items_ab [0, 0] = Some (mk_item ''b'' [])"
    "item_id (mk_item ''b'' []) \<notin> set (item_ancestor_ids items_ab [0, 0])"
    by (simp_all add: tree_ab_def items_ab_def mk_task_def mk_item_def)
  have i: "task_id (mk_task ''b'' []) = ''b''" "children (mk_task ''b'' []) = []"
    "item_id (mk_item ''b'' []) = ''b''" "subTasks (mk_item ''b'' []) = []"
    "t_name (attrs (mk_task ''b'' [])) = ''b''" "t_description (attrs (mk_task ''b'' [])) = []"
    by (simp_all add: mk_task_def mk_item_def)
  note inst = C7_patch_completed [of tree_ab "[0, 0]" "mk_task ''b'' []" True items_ab
      "mk_item ''b'' []"]
  from inst h have r0: "map_option (\<lambda>t. (t_name (attrs t), t_description (attrs t), children t))
        (node_at (updateNestedTask (task_id (mk_task ''b'' [])) (only_completed True) tree_ab)
           [0, 0])
      = Some (t_name (attrs (mk_task ''b'' [])), t_description (attrs (mk_task ''b'' [])),
          children (mk_task ''b'' []))"
    by blast
  from inst h have r1: "node_at (updateNestedTask (task_id (mk_task ''b'' []))
        (only_completed True) tree_ab) [0, 0]
      = Some (Task ((attrs (mk_task ''b'' []))\<lparr> t_completed := True \<rparr>)
          (children (mk_task ''b'' [])))"
    by blast
  from inst h have r2: "item_at (updateTaskInItem (item_id (mk_item ''b'' []))
        (item_only_completed True) items_ab) [0, 0]
      = Some (Item ((iattrs (mk_item ''b'' []))\<lparr> i_completed := True \<rparr>)
          (subTasks (mk_item ''b'' [])))"
    by blast
  from r0 r1 r2 h show ?thesis by (simp only: i simp_thms)
qed

theorem C7_patch_completed_counterexample:
  "node_at tree_xx [0, 0] = Some (mk_task ''x'' [])
   \<and> ancestor_ids tree_xx [0, 0] = [''x'']
   \<and> t_completed (attrs (mk_task ''x'' [])) = False
   \<and> updateNestedTask ''x'' (only_completed True) tree_xx
       = [patchTask (only_completed True) (mk_task ''x'' [mk_task ''x'' []])]
   \<and> node_at (updateNestedTask ''x'' (only_completed True) tree_xx) [0, 0]
       = Some (mk_task ''x'' [])"
  by (simp add: tree_xx_def mk_task_def patchTask_def)

text \<open>
  C10. After \<open>updateTask\<close>, a node with the target id has, at the same position, the
  children it had before, whatever the patch holds; when the patch's name (description)
  is the empty string it has the name (description) it had before. The same holds of
  the object \<open>patchTask\<close> builds.
\<close>

theorem C10_falsy_patch:
  "(node_at ts ix = Some n \<longrightarrow> task_id n = tid \<longrightarrow>
      map_option children (node_at (updateNestedTask tid d ts) ix) = Some (children n)
      \<and> (d_name d = Some [] \<longrightarrow>
           map_option (\<lambda>t. t_name (attrs t)) (node_at (updateNestedTask tid d ts) ix)
             = Some (t_name (attrs n)))
      \<and> (d_description d = Some [] \<longrightarrow>
           map_option (\<lambda>t. t_description (attrs t)) (node_at (updateNestedTask tid d ts) ix)
             = Some (t_description (attrs n))))
   \<and> children (patchTask d t) = children t
   \<and> (d_name d = Some [] \<longrightarrow> t_name (attrs (patchTask d t)) = t_name (attrs t))
   \<and> (d_description d = Some [] \<longrightarrow>
        t_description (attrs (patchTask d t)) = t_description (attrs t))"
  using updateNestedTask_at [of ts ix n tid d]
  by (simp add: patchTask_empty_name patchTask_empty_description)

theorem C10_falsy_patch_witness:
  "node_at tree_ab [0, 0] = Some (mk_task ''b'' [])
   \<and> task_id (mk_task ''b'' []) = ''b''
   \<and> d_name patch_blank = Some [] \<and> d_description patch_blank = Some []
   \<and> d_children patch_blank = Some [mk_task ''q'' []]
   \<and> map_option children (node_at (updateNestedTask ''b'' patch_blank tree_ab) [0, 0])
       = Some (children (mk_task ''b'' []))
   \<and> map_option (\<lambda>t. t_name (attrs t))
         (node_at (updateNestedTask ''b'' patch_blank tree_ab) [0, 0])
       = Some (t_name (attrs (mk_task ''b'' [])))
   \<and> map_option (\<lambda>t. t_description (attrs t))
         (node_at (updateNestedTask ''b'' patch_blank tree_ab) [0, 0])
       = Some (t_description (attrs (mk_task ''b'' [])))
   \<and> children (mk_task ''b'' []) = [] \<and> t_name (attrs (mk_task ''b'' [])) = ''b''"
proof -
  have h: "node_at tree_ab [0, 0] = Some (mk_task ''b'' [])"
    "task_id (mk_task ''b'' []) = ''b''"
    "d_name patch_blank = Some []" "d_description patch_blank = Some []"
    "d_children patch_blank = Some [mk_task ''q'' []]"
    "children (mk_task ''b'' []) = []" "t_name (attrs (mk_task ''b'' [])) = ''b''"
    by (simp_all add: tree_ab_def mk_task_def patch_blank_def)
  from C10_falsy_patch [of tree_ab "[0, 0]" "mk_task ''b'' []" "''b''" patch_blank] h
  show ?thesis by blast
qed

section \<open>Aggregation of a user's tasks\<close>

lemma findUserTasks_preorder:
  "findUserTasks uid ts pid = map (withProjectId pid) (filter (isAssigned uid) (preorder ts))"
  by (induction ts rule: preorder.induct) simp_all

lemma fetchUserTasks_userTasks:
  "currentUser s = Some uid \<Longrightarrow>
   userTasks (fetchUserTasks s) =
     concat (map (\<lambda>(k, d). map (withProjectId (Some k))
                    (filter (isAssigned uid) (preorder (p_tasks (project_of_doc k d)))))
               (docs s))"
  by (simp add: fetchUserTasks_def Let_def foldl_append_concat findUserTasks_preorder
        comp_def case_prod_unfold project_of_doc_def)

lemma isAssigned_iff:
  "isAssigned uid t \<longleftrightarrow> (\<exists>us. t_assignedTo (attrs t) = Some us \<and> uid \<in> u_id ` set us)"
  by (auto simp: isAssigned_def list_ex_iff split: option.splits)

lemma isAssigned_withProjectId [simp]:
  "isAssigned uid (withProjectId pid t) = isAssigned uid t"
  by (simp add: isAssigned_def withProjectId_def)

lemma withProjectId_fun:
  "withProjectId pid = (\<lambda>t. Task ((attrs t)\<lparr> t_projectId := pid \<rparr>) (children t))"
  by (simp add: fun_eq_iff withProjectId_def)

lemma findUserTasks_projectId:
  "t \<in> set (findUserTasks uid ts pid) \<Longrightarrow> t_projectId (attrs t) = pid \<and> isAssigned uid t"
  by (auto simp: findUserTasks_preorder withProjectId_def isAssigned_def)

lemma fetchUserTasks_projectId:
  assumes "currentUser s = Some uid" and "t \<in> set (userTasks (fetchUserTasks s))"
  shows "isAssigned uid t \<and> (\<exists>k \<in> fst ` set (docs s). t_projectId (attrs t) = Some k)"
proof -
  from assms obtain k d where kd: "(k, d) \<in> set (docs s)"
    and t: "t \<in> set (map (withProjectId (Some k))
        (filter (isAssigned uid) (preorder (p_tasks (project_of_doc k d)))))"
    by (auto simp: fetchUserTasks_userTasks)
  from t have "t \<in> set (findUserTasks uid (p_tasks (project_of_doc k d)) (Some k))"
    by (simp only: findUserTasks_preorder)
  from findUserTasks_projectId [OF this] kd show ?thesis
    by force
qed

text \<open>
  C9. With a signed-in user, \<open>fetchUserTasks\<close> sets \<open>userTasks\<close> to the nodes
  assigned to that user, each a copy of the node whose \<open>projectId\<close> is the id of
  the document of the project that holds it, depth-first with each parent before its
  children, project after project in the order of the collection; a node is assigned
  when its \<open>assignedTo\<close> holds a user with the id, so every node of the result is
  assigned to the user and carries the id of a document of the collection.
\<close>

theorem C9_user_tasks:
  "(currentUser s = Some uid \<longrightarrow>
      userTasks (fetchUserTasks s) =
        concat (map (\<lambda>(k, d). map (\<lambda>t. Task ((attrs t)\<lparr> t_projectId := Some k \<rparr>) (children t))
                       (filter (isAssigned uid) (preorder (p_tasks (project_of_doc k d)))))
                  (docs s)))
   \<and> findUserTasks uid ts pid =
       map (\<lambda>t. Task ((attrs t)\<lparr> t_projectId := pid \<rparr>) (children t))
         (filter (isAssigned uid) (preorder ts))
   \<and> withProjectId pid t = Task ((attrs t)\<lparr> t_projectId := pid \<rparr>) (children t)
   \<and> (\<forall>t' \<in> set (findUserTasks uid ts pid). t_projectId (attrs t') = pid \<and> isAssigned uid t')
   \<and> (isAssigned uid t \<longleftrightarrow> (\<exists>us. t_assignedTo (attrs t) = Some us \<and> uid \<in> u_id ` set us))
   \<and> (currentUser s = Some uid \<longrightarrow>
        (\<forall>t' \<in> set (userTasks (fetchUserTasks s)).
           isAssigned uid t' \<and> (\<exists>k \<in> fst ` set (docs s). t_projectId (attrs t') = Some k)))"
proof (intro conjI impI ballI)
  assume u: "currentUser s = Some uid"
  from fetchUserTasks_userTasks [OF u]
  show "userTasks (fetchUserTasks s) =
        concat (map (\<lambda>(k, d). map (\<lambda>t. Task ((attrs t)\<lparr> t_projectId := Some k \<rparr>) (children t))
                       (filter (isAssigned uid) (preorder (p_tasks (project_of_doc k d)))))
                  (docs s))"
    by (simp only: withProjectId_fun)
next
  from findUserTasks_preorder [of uid ts pid]
  show "findUserTasks uid ts pid =
       map (\<lambda>t. Task ((attrs t)\<lparr> t_projectId := pid \<rparr>) (children t))
         (filter (isAssigned uid) (preorder ts))"
    by (simp only: withProjectId_fun)
next
  show "withProjectId pid t = Task ((attrs t)\<lparr> t_projectId := pid \<rparr>) (children t)"
    by (simp only: withProjectId_def)
next
  fix t' assume "t' \<in> set (findUserTasks uid ts pid)"
  from findUserTasks_projectId [OF this]
  show "t_projectId (attrs t') = pid" and "isAssigned uid t'"
    by blast+
next
  show "isAssigned uid t \<longleftrightarrow> (\<exists>us. t_assignedTo (attrs t) = Some us \<and> uid \<in> u_id ` set us)"
    by (rule isAssigned_iff)
next
  fix t' assume "currentUser s = Some uid" "t' \<in> set (userTasks (fetchUserTasks s))"
  from fetchUserTasks_projectId [OF this]
  show "isAssigned uid t'" and "\<exists>k \<in> fst ` set (docs s). t_projectId (attrs t') = Some k"
    by blast+
qed

theorem C9_user_tasks_witness:
  "currentUser store_two = Some ''u1''
   \<and> userTasks (fetchUserTasks store_two)
       = [Task ((attrs (mk_assigned ''A'' [''u1'']
                   [mk_task ''B'' [mk_assigned ''C'' [''u2'', ''u1''] []]]))
                \<lparr> t_projectId := Some ''p1'' \<rparr>)
            [mk_task ''B'' [mk_assigned ''C'' [''u2'', ''u1''] []]],
          Task ((attrs (mk_assigned ''C'' [''u2'', ''u1''] [])) \<lparr> t_projectId := Some ''p1'' \<rparr>) [],
          Task ((attrs (mk_assigned ''E'' [''u1''] [])) \<lparr> t_projectId := Some ''p2'' \<rparr>) []]
   \<and> map task_id (userTasks (fetchUserTasks store_two)) = [''A'', ''C'', ''E'']
   \<and> map (t_projectId \<circ> attrs) (userTasks (fetchUserTasks store_two))
       = [Some ''p1'', Some ''p1'', Some ''p2'']
   \<and> map fst (docs store_two) = [''p1'', ''p2'']
   \<and> list_all (isAssigned ''u1'') (userTasks (fetchUserTasks store_two))"
proof -
  have u: "currentUser store_two = Some ''u1''"
    by (simp add: store_two_def mk_store_def)
  have dk: "map fst (docs store_two) = [''p1'', ''p2'']"
    by (simp add: store_two_def mk_store_def)
  note inst = C9_user_tasks [of store_two "''u1''"]
  from inst u have r: "userTasks (fetchUserTasks store_two) =
        concat (map (\<lambda>(k, d). map (\<lambda>t. Task ((attrs t)\<lparr> t_projectId := Some k \<rparr>) (children t))
                       (filter (isAssigned ''u1'') (preorder (p_tasks (project_of_doc k d)))))
                  (docs store_two))"
    by blast
  from inst u have a: "\<forall>t \<in> set (userTasks (fetchUserTasks store_two)). isAssigned ''u1'' t"
    by blast
  have e: "concat (map (\<lambda>(k, d). map (\<lambda>t. Task ((attrs t)\<lparr> t_projectId := Some k \<rparr>) (children t))
                       (filter (isAssigned ''u1'') (preorder (p_tasks (project_of_doc k d)))))
                  (docs store_two))
      = [Task ((attrs (mk_assigned ''A'' [''u1'']
                   [mk_task ''B'' [mk_assigned ''C'' [''u2'', ''u1''] []]]))
                \<lparr> t_projectId := Some ''p1'' \<rparr>)
            [mk_task ''B'' [mk_assigned ''C'' [''u2'', ''u1''] []]],
          Task ((attrs (mk_assigned ''C'' [''u2'', ''u1''] [])) \<lparr> t_projectId := Some ''p1'' \<rparr>) [],
          Task ((attrs (mk_assigned ''E'' [''u1''] [])) \<lparr> t_projectId := Some ''p2'' \<rparr>) []]"
    by (simp add: store_two_def mk_store_def mk_doc_def project_of_doc_def mk_assigned_def
          mk_task_def isAssigned_def)
  from r have r': "userTasks (fetchUserTasks store_two)
      = [Task ((attrs (mk_assigned ''A'' [''u1'']
                   [mk_task ''B'' [mk_assigned ''C'' [''u2'', ''u1''] []]]))
                \<lparr> t_projectId := Some ''p1'' \<rparr>)
            [mk_task ''B'' [mk_assigned ''C'' [''u2'', ''u1''] []]],
          Task ((attrs (mk_assigned ''C'' [''u2'', ''u1''] [])) \<lparr> t_projectId := Some ''p1'' \<rparr>) [],
          Task ((attrs (mk_assigned ''E'' [''u1''] [])) \<lparr> t_projectId := Some ''p2'' \<rparr>) []]"
    by (simp only: e)
  have m: "map task_id (userTasks (fetchUserTasks store_two)) = [''A'', ''C'', ''E'']"
    "map (t_projectId \<circ> attrs) (userTasks (fetchUserTasks store_two))
       = [Some ''p1'', Some ''p1'', Some ''p2'']"
    by (simp_all add: r' mk_assigned_def)
  from a have l: "list_all (isAssigned ''u1'') (userTasks (fetchUserTasks store_two))"
    by (simp only: list_all_iff)
  from u r' m dk l show ?thesis by blast
qed

end
